theory Spec2Isabelle
  imports Complex_Main
begin

section \<open>Denoising diffusion: noise schedule, forward corruption, time encoding, sampler\<close>

text \<open>
  A shallow embedding of the numeric core of the notebook
  \<^verbatim>\<open>notebooks/35_denoising_diffusion.ipynb\<close>: the two variance schedules, the batch
  preparation with its closed-form noising and the inverse \<^verbatim>\<open>subtract_noise\<close>, the
  sinusoidal time-encoding table and the reverse sampling loop \<^verbatim>\<open>generate\<close>.

  Conventions of the embedding.
  \<^item> Python integers are \<open>int\<close>; floating-point numbers are idealised as \<open>real\<close>, so the
    rounding of \<^verbatim>\<open>astype(np.float32)\<close> and of every arithmetic operation is left out. The one
    exception is \<open>variance_schedule_float32\<close>, which keeps the cast to float32 and the
    float32 arithmetic after it, for the property that this rounding decides.
  \<^item> A division by zero and a fractional power of a negative number give \<^verbatim>\<open>inf\<close> or
    \<^verbatim>\<open>nan\<close> in the source and never raise; HOL gives them some value of its own. Every
    theorem that reads such a value carries hypotheses under which the divisor is non-zero
    and the base is non-negative, and the schedule theorems establish those hypotheses for
    the computed schedules.
  \<^item> A one-dimensional array is a list. A tensor whose shape is fixed by the program (one
    image with its channel axis) is a function from its index type \<open>'p\<close> to \<open>real\<close>; a
    batch is the list of its samples.
  \<^item> Random draws are inputs of the model: a function of the draw's position.
  \<^item> Printing and plotting are left out.
\<close>

subsection \<open>Errors\<close>

datatype error = AssertionError | ValueError | IndexError | InvalidArgumentError

definition bind_result :: "error + 'a \<Rightarrow> ('a \<Rightarrow> error + 'b) \<Rightarrow> error + 'b" where
  "bind_result r k = (case r of Inl e \<Rightarrow> Inl e | Inr v \<Rightarrow> k v)"

subsection \<open>Array primitives\<close>

text \<open>\<^verbatim>\<open>np.arange(n)\<close> for an integer \<open>n\<close>: the integers \<open>0, \<dots>, n - 1\<close>, none when \<open>n \<le> 0\<close>.\<close>

definition arange :: "int \<Rightarrow> int list" where
  "arange n = [0..n - 1]"

text \<open>\<^verbatim>\<open>np.clip(x, lo, hi)\<close> is \<^verbatim>\<open>minimum(maximum(x, lo), hi)\<close>, elementwise.\<close>

definition clip :: "real \<Rightarrow> real \<Rightarrow> real \<Rightarrow> real" where
  "clip x lo hi = min (max x lo) hi"

text \<open>\<^verbatim>\<open>np.cumprod\<close>: the running product, written as the loop it is.\<close>

fun cumprod_from :: "real \<Rightarrow> real list \<Rightarrow> real list" where
  "cumprod_from acc [] = []"
| "cumprod_from acc (x # xs) = (acc * x) # cumprod_from (acc * x) xs"

definition cumprod :: "real list \<Rightarrow> real list" where
  "cumprod xs = cumprod_from 1 xs"

text \<open>
  \<^verbatim>\<open>a[i]\<close> on a numpy array \<open>a\<close> of \<open>n\<close> entries and a Python integer \<open>i\<close>: the entry \<open>i\<close>
  for \<open>0 \<le> i < n\<close>, the entry \<open>n + i\<close> for \<open>- n \<le> i < 0\<close>, an \<^verbatim>\<open>IndexError\<close> elsewhere.
\<close>

definition index :: "'a list \<Rightarrow> int \<Rightarrow> error + 'a" where
  "index a i =
     (if 0 \<le> i \<and> i < int (length a) then Inr (a ! nat i)
      else if - int (length a) \<le> i \<and> i < 0 then Inr (a ! nat (int (length a) + i))
      else Inl IndexError)"

subsection \<open>Variance schedules\<close>

text \<open>
  \<^verbatim>\<open>
  def variance_schedule(T, s=0.008, max_beta=0.999):
      t = np.arange(T + 1)
      f = np.cos((t / T + s) / (1 + s) * np.pi / 2) ** 2
      alpha = np.clip(f[1:] / f[:-1], 1 - max_beta, 1)
      alpha = np.append(1, alpha).astype(np.float32)
      beta = 1 - alpha
      alpha_cumprod = np.cumprod(alpha)
      return alpha, alpha_cumprod, beta
  \<close>
  The slices \<^verbatim>\<open>f[1:]\<close> and \<^verbatim>\<open>f[:-1]\<close> are \<open>tl\<close> and \<open>butlast\<close>, both empty on the empty
  array; the elementwise quotient of two arrays of equal length is \<open>map2\<close>. The entry of
  the array \<^verbatim>\<open>f\<close> at \<open>t\<close> is \<open>cos_f T s t\<close>. The source comments the \<^verbatim>\<open>np.append\<close> line with
  \<^verbatim>\<open>add alpha_0 = 1\<close> and the \<^verbatim>\<open>return\<close> line with \<^verbatim>\<open>alpha_t, alpha_bar_t, beta_t for
  t = 0 to T\<close> (in Greek letters).
\<close>

definition cos_f :: "int \<Rightarrow> real \<Rightarrow> int \<Rightarrow> real" where
  "cos_f T s t = (cos ((of_int t / of_int T + s) / (1 + s) * pi / 2))\<^sup>2"

definition variance_schedule :: "int \<Rightarrow> real \<Rightarrow> real \<Rightarrow> real list \<times> real list \<times> real list" where
  "variance_schedule T s max_beta =
     (let t = arange (T + 1);
          f = map (cos_f T s) t;
          alpha = map (\<lambda>r. clip r (1 - max_beta) 1) (map2 (/) (tl f) (butlast f));
          alpha = 1 # alpha;
          beta = map (\<lambda>a. 1 - a) alpha;
          alpha_cumprod = cumprod alpha
      in (alpha, alpha_cumprod, beta))"

text \<open>
  \<^verbatim>\<open>
  def linear_schedule(T, s=0.008, max_beta=0.999):
      step_scale = 0.005
      t = np.arange(T + 1)
      f = 1 - step_scale*t / T
      alpha = np.clip(f, 1 - max_beta, 1)
      alpha = np.append(1, alpha).astype(np.float32)
      beta = 1 - alpha
      alpha_cumprod = np.cumprod(alpha)
      return alpha, alpha_cumprod, beta
  \<close>
  The entry of \<^verbatim>\<open>f\<close> at \<open>t\<close> is \<open>lin_f T t\<close>. Here \<^verbatim>\<open>f\<close> is clipped as it is, all \<open>T + 1\<close>
  entries of it (no quotient of neighbours is taken), and the \<open>1\<close> is put in front of
  those. The two comments of \<^verbatim>\<open>variance_schedule\<close> stand on the same two lines here.
\<close>

definition step_scale :: real where
  "step_scale = 5 / 1000"

definition lin_f :: "int \<Rightarrow> int \<Rightarrow> real" where
  "lin_f T t = 1 - step_scale * of_int t / of_int T"

definition linear_schedule :: "int \<Rightarrow> real \<Rightarrow> real \<Rightarrow> real list \<times> real list \<times> real list" where
  "linear_schedule T s max_beta =
     (let t = arange (T + 1);
          f = map (lin_f T) t;
          alpha = map (\<lambda>r. clip r (1 - max_beta) 1) f;
          alpha = 1 # alpha;
          beta = map (\<lambda>a. 1 - a) alpha;
          alpha_cumprod = cumprod alpha
      in (alpha, alpha_cumprod, beta))"

text \<open>
  Neither schedule function contains an \<^verbatim>\<open>assert\<close> or a \<^verbatim>\<open>raise\<close>, and the numpy
  operations in them warn and go on where they divide by zero. Seen as calls that either
  raise or return, both have the returning branch only.
\<close>

definition variance_schedule_call ::
    "int \<Rightarrow> real \<Rightarrow> real \<Rightarrow> error + (real list \<times> real list \<times> real list)" where
  "variance_schedule_call T s max_beta = Inr (variance_schedule T s max_beta)"

definition linear_schedule_call ::
    "int \<Rightarrow> real \<Rightarrow> real \<Rightarrow> error + (real list \<times> real list \<times> real list)" where
  "linear_schedule_call T s max_beta = Inr (linear_schedule T s max_beta)"

subsection \<open>The cosine schedule as it is stored\<close>







subsection \<open>Tensors and batches\<close>

type_synonym 'p tensor = "'p \<Rightarrow> real"

definition zeros :: "'p tensor" where
  "zeros = (\<lambda>i. 0)"

definition scale :: "real \<Rightarrow> 'p tensor \<Rightarrow> 'p tensor" where
  "scale a x = (\<lambda>i. a * x i)"

definition tadd :: "'p tensor \<Rightarrow> 'p tensor \<Rightarrow> 'p tensor" where
  "tadd x y = (\<lambda>i. x i + y i)"

definition tsub :: "'p tensor \<Rightarrow> 'p tensor \<Rightarrow> 'p tensor" where
  "tsub x y = (\<lambda>i. x i - y i)"

definition tdiv :: "'p tensor \<Rightarrow> real \<Rightarrow> 'p tensor" where
  "tdiv x a = (\<lambda>i. x i / a)"

text \<open>
  A binary operation on two batches broadcasts along the batch axis: equal sizes go
  elementwise, a batch of size one is repeated, any other pair of sizes is refused.
\<close>

definition broadcast2 :: "('a \<Rightarrow> 'b \<Rightarrow> 'c) \<Rightarrow> 'a list \<Rightarrow> 'b list \<Rightarrow> error + 'c list" where
  "broadcast2 f xs ys =
     (if length xs = length ys then Inr (map2 f xs ys)
      else if length xs = 1 then Inr (map (f (hd xs)) ys)
      else if length ys = 1 then Inr (map (\<lambda>x. f x (hd ys)) xs)
      else Inl InvalidArgumentError)"

text \<open>\<^verbatim>\<open>tf.gather(params, indices)\<close> on a one-dimensional \<^verbatim>\<open>params\<close>: every index must lie in
  \<open>[0, len)\<close>.\<close>

definition gather :: "'a list \<Rightarrow> int list \<Rightarrow> error + 'a list" where
  "gather params indices =
     (if \<forall>i \<in> set indices. 0 \<le> i \<and> i < int (length params)
      then Inr (map (\<lambda>i. params ! nat i) indices)
      else Inl InvalidArgumentError)"

text \<open>\<^verbatim>\<open>tf.reshape(a, [n, 1, \<dots>, 1])\<close> of a one-dimensional \<^verbatim>\<open>a\<close>: the element count must be \<open>n\<close>.\<close>

definition reshape_batch :: "nat \<Rightarrow> 'a list \<Rightarrow> error + 'a list" where
  "reshape_batch n a = (if length a = n then Inr a else Inl InvalidArgumentError)"

text \<open>
  The random sources. \<^verbatim>\<open>tf.random.uniform(shape=[n], minval, maxval, dtype=tf.int32)\<close>
  needs \<open>minval < maxval\<close> and returns \<open>n\<close> integers of the half-open range
  \<open>[minval, maxval)\<close>; the model reduces the raw randomness \<open>raw k\<close> of position \<open>k\<close> into that
  range. \<^verbatim>\<open>tf.random.normal\<close> of a batch shape returns the draws \<open>z k\<close>.
\<close>

definition random_uniform_int :: "(nat \<Rightarrow> int) \<Rightarrow> nat \<Rightarrow> int \<Rightarrow> int \<Rightarrow> error + int list" where
  "random_uniform_int raw n minval maxval =
     (if minval < maxval
      then Inr (map (\<lambda>k. minval + raw k mod (maxval - minval)) [0..<n])
      else Inl InvalidArgumentError)"

definition random_normal :: "(nat \<Rightarrow> 'p tensor) \<Rightarrow> nat \<Rightarrow> 'p tensor list" where
  "random_normal z n = map z [0..<n]"

subsection \<open>Forward corruption and its inverse\<close>

text \<open>
  \<^verbatim>\<open>
  def prepare_batch(X):
      X = tf.cast(X[..., tf.newaxis], tf.float32) * 2 - 1
      X_shape = tf.shape(X)
      t = tf.random.uniform([X_shape[0]], minval=1, maxval=T + 1, dtype=tf.int32)
      alpha_cm = tf.gather(alpha_cumprod, t)
      alpha_cm = tf.reshape(alpha_cm, [X_shape[0]] + [1] * (len(X_shape) - 1))
      noise = tf.random.normal(X_shape)
      return {
          "X_noisy": alpha_cm ** 0.5 * X + (1 - alpha_cm) ** 0.5 * noise,
          "time": t,
      }, noise
  \<close>
  The globals \<^verbatim>\<open>T\<close> and \<^verbatim>\<open>alpha_cumprod\<close> are parameters.
\<close>

record 'p noisy_batch =
  X_noisy :: "'p tensor list"
  time :: "int list"

definition rescale :: "'p tensor list \<Rightarrow> 'p tensor list" where
  "rescale X = map (\<lambda>x. (\<lambda>i. x i * 2 - 1)) X"

definition prepare_batch ::
    "int \<Rightarrow> real list \<Rightarrow> (nat \<Rightarrow> int) \<Rightarrow> (nat \<Rightarrow> 'p tensor) \<Rightarrow> 'p tensor list
      \<Rightarrow> error + ('p noisy_batch \<times> 'p tensor list)" where
  "prepare_batch T alpha_cumprod raw z X0 =
     (let X = rescale X0;
          n = length X
      in bind_result (random_uniform_int raw n 1 (T + 1)) (\<lambda>t.
         bind_result (gather alpha_cumprod t) (\<lambda>alpha_cm.
         bind_result (reshape_batch n alpha_cm) (\<lambda>alpha_cm.
           let noise = random_normal z n
           in bind_result (broadcast2 scale (map (\<lambda>a. a powr (1 / 2)) alpha_cm) X) (\<lambda>signal.
              bind_result (broadcast2 scale (map (\<lambda>a. (1 - a) powr (1 / 2)) alpha_cm) noise) (\<lambda>blur.
              bind_result (broadcast2 tadd signal blur) (\<lambda>noisy.
                Inr (\<lparr>X_noisy = noisy, time = t\<rparr>, noise))))))))"

text \<open>
  \<^verbatim>\<open>
  def subtract_noise(X_noisy, time, noise):
      X_shape = tf.shape(X_noisy)
      alpha_cm = tf.gather(alpha_cumprod, time)
      alpha_cm = tf.reshape(alpha_cm, [X_shape[0]] + [1] * (len(X_shape) - 1))
      return (X_noisy - (1 - alpha_cm) ** 0.5 * noise) / alpha_cm ** 0.5
  \<close>
\<close>

definition subtract_noise ::
    "real list \<Rightarrow> 'p tensor list \<Rightarrow> int list \<Rightarrow> 'p tensor list \<Rightarrow> error + 'p tensor list" where
  "subtract_noise alpha_cumprod Xn tm noise =
     bind_result (gather alpha_cumprod tm) (\<lambda>alpha_cm.
     bind_result (reshape_batch (length Xn) alpha_cm) (\<lambda>alpha_cm.
     bind_result (broadcast2 scale (map (\<lambda>a. (1 - a) powr (1 / 2)) alpha_cm) noise) (\<lambda>blur.
     bind_result (broadcast2 tsub Xn blur) (\<lambda>d.
       broadcast2 tdiv d (map (\<lambda>a. a powr (1 / 2)) alpha_cm)))))"

subsection \<open>Time encoding\<close>

text \<open>
  \<^verbatim>\<open>
  class TimeEncoding(tf.keras.layers.Layer):
      def __init__(self, T, embed_size, dtype=tf.float32, **kwargs):
          super().__init__(dtype=dtype, **kwargs)
          assert embed_size % 2 == 0, "embed_size must be even"
          p, i = np.meshgrid(np.arange(T + 1), 2 * np.arange(embed_size // 2))
          t_emb = np.empty((T + 1, embed_size))
          t_emb[:, ::2] = np.sin(p / 10_000 ** (i / embed_size)).T
          t_emb[:, 1::2] = np.cos(p / 10_000 ** (i / embed_size)).T
          self.time_encodings = tf.constant(t_emb.astype(self.dtype))
  \<close>
  A two-dimensional array is the list of its rows. \<^verbatim>\<open>np.meshgrid(xs, ys)\<close> returns two
  arrays of \<open>length ys\<close> rows and \<open>length xs\<close> columns. A list of rows forgets its column
  count when it has no row, so the transposition takes the shape of its result.
  \<^verbatim>\<open>np.empty\<close> refuses a negative dimension with a \<^verbatim>\<open>ValueError\<close> and leaves the entries
  uninitialised: \<open>u\<close> stands for whatever they hold. The two strided assignments fit their
  targets because \<^verbatim>\<open>embed_size\<close> is even by then.
\<close>

definition meshgrid :: "'a list \<Rightarrow> 'b list \<Rightarrow> 'a list list \<times> 'b list list" where
  "meshgrid xs ys = (map (\<lambda>y. xs) ys, map (\<lambda>y. map (\<lambda>x. y) xs) ys)"

definition np_empty :: "real \<Rightarrow> nat \<Rightarrow> nat \<Rightarrow> real list list" where
  "np_empty u rows cols = replicate rows (replicate cols u)"

definition transposed :: "nat \<Rightarrow> nat \<Rightarrow> real list list \<Rightarrow> real list list" where
  "transposed rows cols A = map (\<lambda>r. map (\<lambda>c. A ! c ! r) [0..<cols]) [0..<rows]"

fun assign_stride :: "nat \<Rightarrow> real list \<Rightarrow> real list \<Rightarrow> real list" where
  "assign_stride k row [] = row"
| "assign_stride k row (v # vs) = assign_stride (k + 2) (row[k := v]) vs"

definition assign_cols :: "nat \<Rightarrow> real list list \<Rightarrow> real list list \<Rightarrow> real list list" where
  "assign_cols start M V = map2 (assign_stride start) M V"

definition angle :: "int \<Rightarrow> int \<Rightarrow> int \<Rightarrow> real" where
  "angle embed_size p i = of_int p / 10000 powr (of_int i / of_int embed_size)"

record time_encoding =
  time_encodings :: "real list list"

definition TimeEncoding_init :: "real \<Rightarrow> int \<Rightarrow> int \<Rightarrow> error + time_encoding" where
  "TimeEncoding_init u T embed_size =
     (if embed_size mod 2 \<noteq> 0 then Inl AssertionError
      else
        let (p, i) = meshgrid (arange (T + 1)) (map (\<lambda>j. 2 * j) (arange (embed_size div 2)))
        in if T + 1 < 0 \<or> embed_size < 0 then Inl ValueError
           else
             let rows = nat (T + 1);
                 half = nat (embed_size div 2);
                 t_emb = np_empty u rows (nat embed_size);
                 t_emb = assign_cols 0 t_emb
                   (transposed rows half (map2 (map2 (\<lambda>p i. sin (angle embed_size p i))) p i));
                 t_emb = assign_cols 1 t_emb
                   (transposed rows half (map2 (map2 (\<lambda>p i. cos (angle embed_size p i))) p i))
             in Inr \<lparr>time_encodings = t_emb\<rparr>)"

subsection \<open>Reverse sampler\<close>

text \<open>
  \<^verbatim>\<open>
  def generate(model, batch_size=32, show_step_interval=200):
      X = tf.random.normal([batch_size, 28, 28, 1])
      for t in range(T - 1, 0, -1):
          noise = (tf.random.normal if t > 1 else tf.zeros)(tf.shape(X))
          X_noise = model({"X_noisy": X, "time": tf.constant([t] * batch_size)})
          X = (
              1 / alpha[t] ** 0.5
              * (X - beta[t] / (1 - alpha_cumprod[t]) ** 0.5 * X_noise)
              + (1 - alpha[t]) ** 0.5 * noise
          )
      return X
  \<close>
  The whole batch is one tensor here: the model's output has the shape of its input by the
  construction of the network, and all its samples get the same \<open>t\<close>. The globals
  \<^verbatim>\<open>T\<close>, \<^verbatim>\<open>alpha\<close>, \<^verbatim>\<open>alpha_cumprod\<close> and \<^verbatim>\<open>beta\<close> are parameters. The state of the random
  generator is the number \<open>k\<close> of normal tensors drawn so far, \<open>normal k\<close> being the next one.
\<close>

definition generate_step ::
    "real list \<Rightarrow> real list \<Rightarrow> real list \<Rightarrow> int \<Rightarrow> 'p tensor \<Rightarrow> 'p tensor \<Rightarrow> 'p tensor
      \<Rightarrow> error + 'p tensor" where
  "generate_step alpha alpha_cumprod beta t X X_noise noise =
     bind_result (index alpha t) (\<lambda>a.
     bind_result (index beta t) (\<lambda>b.
     bind_result (index alpha_cumprod t) (\<lambda>ac.
       Inr (\<lambda>i. 1 / a powr (1 / 2) * (X i - b / (1 - ac) powr (1 / 2) * X_noise i)
                  + (1 - a) powr (1 / 2) * noise i))))"

function generate_loop ::
    "('p tensor \<Rightarrow> int \<Rightarrow> 'p tensor) \<Rightarrow> real list \<Rightarrow> real list \<Rightarrow> real list \<Rightarrow> (nat \<Rightarrow> 'p tensor)
      \<Rightarrow> int \<Rightarrow> 'p tensor \<Rightarrow> nat \<Rightarrow> error + 'p tensor" where
  "generate_loop model alpha alpha_cumprod beta normal t X k =
     (if 0 < t then
        let noise = (if 1 < t then normal k else zeros);
            k' = (if 1 < t then k + 1 else k);
            X_noise = model X t
        in case generate_step alpha alpha_cumprod beta t X X_noise noise of
             Inl e \<Rightarrow> Inl e
           | Inr X' \<Rightarrow> generate_loop model alpha alpha_cumprod beta normal (t - 1) X' k'
      else Inr X)"
  by pat_completeness auto
termination
  by (relation "measure (\<lambda>(model, alpha, alpha_cumprod, beta, normal, t, X, k). nat t)") auto

declare generate_loop.simps [simp del]

definition generate ::
    "('p tensor \<Rightarrow> int \<Rightarrow> 'p tensor) \<Rightarrow> int \<Rightarrow> real list \<Rightarrow> real list \<Rightarrow> real list
      \<Rightarrow> (nat \<Rightarrow> 'p tensor) \<Rightarrow> error + 'p tensor" where
  "generate model T alpha alpha_cumprod beta normal =
     generate_loop model alpha alpha_cumprod beta normal (T - 1) (normal 0) 1"

subsection \<open>The sampler as the specification words it\<close>

text \<open>
  The update rule with square roots, \<open>X \<leftarrow> (1/sqrt(alpha[t])) * (X - beta[t]/sqrt(1 -
  alpha_bar[t]) * noise_pred) + sqrt(1 - alpha[t]) * z\<close>, and the walk of \<open>t\<close> from \<open>T - 1\<close>
  down to \<open>1\<close> with \<open>z\<close> a fresh normal draw while \<open>t > 1\<close> and the zero tensor at \<open>t = 1\<close>.
\<close>

definition reverse_update ::
    "real \<Rightarrow> real \<Rightarrow> real \<Rightarrow> 'p tensor \<Rightarrow> 'p tensor \<Rightarrow> 'p tensor \<Rightarrow> 'p tensor" where
  "reverse_update a a_bar b X noise_pred z =
     (\<lambda>i. (1 / sqrt a) * (X i - b / sqrt (1 - a_bar) * noise_pred i) + sqrt (1 - a) * z i)"

fun reverse_sampler ::
    "('p tensor \<Rightarrow> int \<Rightarrow> 'p tensor) \<Rightarrow> real list \<Rightarrow> real list \<Rightarrow> real list \<Rightarrow> (nat \<Rightarrow> 'p tensor)
      \<Rightarrow> nat \<Rightarrow> 'p tensor \<Rightarrow> nat \<Rightarrow> 'p tensor" where
  "reverse_sampler predict alpha alpha_bar beta normal 0 X k = X"
| "reverse_sampler predict alpha alpha_bar beta normal (Suc n) X k =
     reverse_sampler predict alpha alpha_bar beta normal n
       (reverse_update (alpha ! Suc n) (alpha_bar ! Suc n) (beta ! Suc n) X
          (predict X (int (Suc n))) (if 1 < Suc n then normal k else zeros))
       (if 1 < Suc n then k + 1 else k)"

section \<open>Properties of the schedules\<close>

subsection \<open>Running products, clipping, ranges\<close>

lemma length_cumprod_from: "length (cumprod_from acc xs) = length xs"
  by (induction xs arbitrary: acc) auto

lemma cumprod_from_nth:
  "t < length xs \<Longrightarrow> cumprod_from acc xs ! t = acc * prod_list (take (Suc t) xs)"
proof (induction xs arbitrary: acc t)
  case Nil
  then show ?case by simp
next
  case (Cons x xs)
  then show ?case by (cases t) (simp_all add: mult.assoc)
qed

lemma length_cumprod: "length (cumprod xs) = length xs"
  by (simp add: cumprod_def length_cumprod_from)

lemma cumprod_nth: "t < length xs \<Longrightarrow> cumprod xs ! t = prod_list (take (Suc t) xs)"
  by (simp add: cumprod_def cumprod_from_nth)

lemma cumprod_0: "xs \<noteq> [] \<Longrightarrow> cumprod xs ! 0 = xs ! 0"
  by (cases xs) (simp_all add: cumprod_def)

lemma cumprod_step:
  assumes "Suc t < length xs"
  shows "cumprod xs ! Suc t = cumprod xs ! t * xs ! Suc t"
proof -
  have "take (Suc (Suc t)) xs = take (Suc t) xs @ [xs ! Suc t]"
    using assms by (simp add: take_Suc_conv_app_nth)
  then show ?thesis using assms by (simp add: cumprod_nth)
qed

lemma cumprod_pos:
  assumes "\<forall>x \<in> set xs. 0 < x" and "t < length xs"
  shows "0 < cumprod xs ! t"
  using assms(2)
proof (induction t)
  case 0
  then show ?case using assms(1) by (simp add: cumprod_0)
next
  case (Suc t)
  then have "0 < cumprod xs ! t" by simp
  moreover have "0 < xs ! Suc t" using assms(1) Suc.prems by simp
  ultimately show ?case using Suc.prems by (simp add: cumprod_step)
qed

lemma cumprod_decreasing_step:
  assumes "\<forall>x \<in> set xs. 0 < x \<and> x \<le> 1" and "Suc t < length xs"
  shows "cumprod xs ! Suc t \<le> cumprod xs ! t"
proof -
  have "0 < cumprod xs ! t" using assms by (simp add: cumprod_pos)
  moreover have "xs ! Suc t \<le> 1" using assms by simp
  ultimately have "cumprod xs ! t * xs ! Suc t \<le> cumprod xs ! t * 1"
    by (intro mult_left_mono) simp_all
  then show ?thesis using assms(2) by (simp add: cumprod_step)
qed

lemma cumprod_antimono:
  assumes "\<forall>x \<in> set xs. 0 < x \<and> x \<le> 1" and "j < length xs" and "i \<le> j"
  shows "cumprod xs ! j \<le> cumprod xs ! i"
  using assms(3,2)
proof (induction j rule: dec_induct)
  case base
  then show ?case by simp
next
  case (step n)
  then have "cumprod xs ! Suc n \<le> cumprod xs ! n"
    using assms(1) by (simp add: cumprod_decreasing_step)
  with step show ?case by simp
qed

lemma cumprod_le_1:
  assumes "\<forall>x \<in> set xs. 0 < x \<and> x \<le> 1" and "t < length xs"
  shows "cumprod xs ! t \<le> 1"
proof -
  have "cumprod xs ! t \<le> cumprod xs ! 0"
    using assms by (simp add: cumprod_antimono)
  moreover have "cumprod xs ! 0 \<le> 1"
    using assms by (cases xs) (simp_all add: cumprod_def)
  ultimately show ?thesis by simp
qed

lemma clip_bounds: "lo \<le> hi \<Longrightarrow> lo \<le> clip x lo hi \<and> clip x lo hi \<le> hi"
  by (simp add: clip_def)

lemma clip_less: "x < hi \<Longrightarrow> lo < hi \<Longrightarrow> clip x lo hi < hi"
  by (simp add: clip_def)

lemma length_arange: "length (arange n) = nat n"
  by (simp add: arange_def)

lemma arange_nth: "k < nat n \<Longrightarrow> arange n ! k = int k"
  by (simp add: arange_def nth_upto)

lemma map2_tl_butlast:
  "map2 g (tl xs) (butlast xs) = map (\<lambda>k. g (xs ! Suc k) (xs ! k)) [0..<length xs - 1]"
  by (rule nth_equalityI) (simp_all add: nth_tl nth_butlast)

lemma variance_schedule_alpha:
  "fst (variance_schedule T s max_beta) =
     1 # map (\<lambda>k. clip (cos_f T s (int k + 1) / cos_f T s (int k)) (1 - max_beta) 1) [0..<nat T]"
proof -
  have "map (\<lambda>k. map (cos_f T s) (arange (T + 1)) ! Suc k / map (cos_f T s) (arange (T + 1)) ! k) [0..<nat T]
      = map (\<lambda>k. cos_f T s (int k + 1) / cos_f T s (int k)) [0..<nat T]"
    by (rule map_cong) (simp_all add: length_arange arange_nth add.commute)
  moreover have "length (arange (T + 1)) - 1 = nat T"
    by (simp add: length_arange)
  ultimately show ?thesis
    by (simp add: variance_schedule_def Let_def map2_tl_butlast map_map comp_def del: upt_Suc)
qed

lemma variance_schedule_parts:
  "variance_schedule T s max_beta =
     (fst (variance_schedule T s max_beta), cumprod (fst (variance_schedule T s max_beta)),
      map (\<lambda>a. 1 - a) (fst (variance_schedule T s max_beta)))"
  by (simp add: variance_schedule_def Let_def)

lemma linear_schedule_alpha:
  "fst (linear_schedule T s max_beta) =
     1 # map (\<lambda>k. clip (lin_f T (int k)) (1 - max_beta) 1) [0..<nat (T + 1)]"
proof -
  have "map (\<lambda>r. clip r (1 - max_beta) 1) (map (lin_f T) (arange (T + 1)))
      = map (\<lambda>k. clip (lin_f T (int k)) (1 - max_beta) 1) [0..<nat (T + 1)]"
    by (rule nth_equalityI) (simp_all add: length_arange arange_nth)
  then show ?thesis
    by (simp add: linear_schedule_def Let_def)
qed

lemma linear_schedule_parts:
  "linear_schedule T s max_beta =
     (fst (linear_schedule T s max_beta), cumprod (fst (linear_schedule T s max_beta)),
      map (\<lambda>a. 1 - a) (fst (linear_schedule T s max_beta)))"
  by (simp add: linear_schedule_def Let_def)

lemma variance_schedule_alpha_range:
  assumes "0 < max_beta" "max_beta < 1"
  shows "\<forall>x \<in> set (fst (variance_schedule T s max_beta)). 0 < x \<and> x \<le> 1"
proof -
  have "0 < clip r (1 - max_beta) 1 \<and> clip r (1 - max_beta) 1 \<le> 1" for r
    using clip_bounds [of "1 - max_beta" 1 r] assms by simp
  then show ?thesis by (auto simp: variance_schedule_alpha)
qed

lemma linear_schedule_alpha_range:
  assumes "0 < max_beta" "max_beta < 1"
  shows "\<forall>x \<in> set (fst (linear_schedule T s max_beta)). 0 < x \<and> x \<le> 1"
proof -
  have "0 < clip r (1 - max_beta) 1 \<and> clip r (1 - max_beta) 1 \<le> 1" for r
    using clip_bounds [of "1 - max_beta" 1 r] assms by simp
  then show ?thesis by (auto simp: linear_schedule_alpha)
qed

lemma variance_schedule_length:
  "length (fst (variance_schedule T s max_beta)) = nat T + 1"
  by (simp add: variance_schedule_alpha)

lemma linear_schedule_length:
  "length (fst (linear_schedule T s max_beta)) = nat (T + 1) + 1"
  by (simp add: linear_schedule_alpha)

text \<open>The invariant of a running product of factors in (0, 1] that starts with 1.\<close>

lemma cumprod_invariant:
  assumes "\<forall>x \<in> set xs. 0 < x \<and> x \<le> 1" and "xs ! 0 = 1" and "n < length xs"
  shows "cumprod xs ! 0 = 1
    \<and> (\<forall>t. 1 \<le> t \<and> t \<le> n \<longrightarrow> cumprod xs ! t = cumprod xs ! (t - 1) * xs ! t)
    \<and> (\<forall>t. 1 \<le> t \<and> t \<le> n \<longrightarrow> cumprod xs ! t \<le> cumprod xs ! (t - 1))
    \<and> (\<forall>t \<le> n. 0 < cumprod xs ! t \<and> cumprod xs ! t \<le> 1)"
proof (intro conjI allI impI)
  have "xs \<noteq> []" using assms(3) by auto
  then show "cumprod xs ! 0 = 1" using assms(2) by (simp add: cumprod_0)
next
  fix t assume t: "1 \<le> t \<and> t \<le> n"
  then obtain u where u: "t = Suc u" by (cases t) auto
  show "cumprod xs ! t = cumprod xs ! (t - 1) * xs ! t"
    using t u assms(3) by (simp add: cumprod_step)
  show "cumprod xs ! t \<le> cumprod xs ! (t - 1)"
    using t u assms(1,3) by (simp add: cumprod_decreasing_step)
next
  fix t assume "t \<le> n"
  then show "0 < cumprod xs ! t" using assms(1,3) by (simp add: cumprod_pos)
next
  fix t assume "t \<le> n"
  then show "cumprod xs ! t \<le> 1" using assms(1,3) by (simp add: cumprod_le_1)
qed


subsection \<open>Lengths of the returned arrays\<close>

text \<open>
  The cosine schedule returns arrays of \<open>T + 1\<close> entries, the linear one arrays of
  \<open>T + 2\<close> entries: its \<^verbatim>\<open>f\<close> has an entry for \<open>t = 0\<close> already when the \<open>1\<close> is
  put in front.
\<close>

lemma variance_schedule_lengths:
  "0 \<le> T \<Longrightarrow> (case variance_schedule T s max_beta of (alpha, alpha_cumprod, beta) \<Rightarrow>
     int (length alpha) = T + 1 \<and> int (length alpha_cumprod) = T + 1 \<and> int (length beta) = T + 1)"
  by (subst variance_schedule_parts)
     (simp add: variance_schedule_length length_cumprod)

lemma linear_schedule_lengths:
  "0 \<le> T \<Longrightarrow> (case linear_schedule T s max_beta of (alpha, alpha_cumprod, beta) \<Rightarrow>
     int (length alpha) = T + 2 \<and> int (length alpha_cumprod) = T + 2 \<and> int (length beta) = T + 2)"
  by (subst linear_schedule_parts)
     (simp add: linear_schedule_length length_cumprod)

lemma upt_0_11: "[0..<11] = [0, 1, 2, 3, 4, 5, 6, 7, 8, 9, 10]"
  by (simp add: upt_rec)


text \<open>
  Claim C4. Both schedule functions are to return three arrays of exactly \<open>T + 1\<close> entries.
  \<^verbatim>\<open>variance_schedule\<close> does (\<open>variance_schedule_lengths\<close>); \<^verbatim>\<open>linear_schedule\<close>
  returns \<open>T + 2\<close> entries, against its own comment \<^verbatim>\<open>for t = 0 to T\<close>. At \<open>T = 10\<close>
  with the default parameters each of its three arrays has 12 entries, not 11.
\<close>

theorem linear_schedule_length_at_10:
  "case linear_schedule 10 (8 / 1000) (999 / 1000) of (alpha, alpha_cumprod, beta) \<Rightarrow>
     length alpha = 12 \<and> length alpha_cumprod = 12 \<and> length beta = 12"
  by (subst linear_schedule_parts)
     (simp add: linear_schedule_length length_cumprod)

text \<open>
  Claim C6. The linear schedule at \<open>T = 10\<close>, slope \<open>0.005\<close> and \<open>max_beta = 0.999\<close> is to
  have \<open>alpha[10] = 0.995\<close> and \<open>beta[10] = 0.005\<close>. The extra leading entry shifts the
  array by one place: the code has \<open>alpha[10] = 0.9955\<close> and \<open>beta[10] = 0.0045\<close>, and the
  claimed values sit at index 11.
\<close>

theorem linear_schedule_entry_10_at_10:
  "case linear_schedule 10 (8 / 1000) (999 / 1000) of (alpha, alpha_cumprod, beta) \<Rightarrow>
     alpha ! 10 = 9955 / 10000 \<and> beta ! 10 = 45 / 10000
   \<and> alpha ! 11 = 995 / 1000 \<and> beta ! 11 = 5 / 1000"
proof -
  have a10: "fst (linear_schedule 10 s (999 / 1000)) ! 10 = 9955 / 10000" for s
    by (simp add: linear_schedule_alpha upt_0_11 lin_f_def step_scale_def clip_def)
  have a11: "fst (linear_schedule 10 s (999 / 1000)) ! 11 = 995 / 1000" for s
    by (simp add: linear_schedule_alpha upt_0_11 lin_f_def step_scale_def clip_def)
  have len: "length (fst (linear_schedule 10 s (999 / 1000))) = 12" for s
    by (simp add: linear_schedule_length)
  show ?thesis
    by (subst linear_schedule_parts) (simp add: a10 a11 len)
qed

subsection \<open>The cumulative product\<close>

text \<open>
  Claim C5. For \<open>T \<ge> 1\<close>, \<open>s \<ge> 0\<close> and \<open>max_beta\<close> in \<open>(0, 1)\<close>, the schedule of either
  policy has \<open>alpha_bar[0] = 1\<close>, \<open>alpha_bar[t] = alpha_bar[t-1] * alpha[t]\<close> for every
  \<open>t\<close> from \<open>1\<close> to \<open>T\<close>, and \<open>alpha_bar\<close> non-increasing with values in \<open>(0, 1]\<close>.
\<close>

theorem schedule_alpha_bar_invariant:
  assumes "1 \<le> T" and "0 \<le> s" and "0 < max_beta" and "max_beta < 1"
  shows "(case variance_schedule T s max_beta of (alpha, alpha_bar, beta) \<Rightarrow>
            alpha_bar ! 0 = 1
          \<and> (\<forall>t. 1 \<le> t \<and> t \<le> nat T \<longrightarrow> alpha_bar ! t = alpha_bar ! (t - 1) * alpha ! t)
          \<and> (\<forall>t. 1 \<le> t \<and> t \<le> nat T \<longrightarrow> alpha_bar ! t \<le> alpha_bar ! (t - 1))
          \<and> (\<forall>t \<le> nat T. 0 < alpha_bar ! t \<and> alpha_bar ! t \<le> 1))
       \<and> (case linear_schedule T s max_beta of (alpha, alpha_bar, beta) \<Rightarrow>
            alpha_bar ! 0 = 1
          \<and> (\<forall>t. 1 \<le> t \<and> t \<le> nat T \<longrightarrow> alpha_bar ! t = alpha_bar ! (t - 1) * alpha ! t)
          \<and> (\<forall>t. 1 \<le> t \<and> t \<le> nat T \<longrightarrow> alpha_bar ! t \<le> alpha_bar ! (t - 1))
          \<and> (\<forall>t \<le> nat T. 0 < alpha_bar ! t \<and> alpha_bar ! t \<le> 1))"
proof (rule conjI)
  let ?a = "fst (variance_schedule T s max_beta)"
  have "?a ! 0 = 1" and "nat T < length ?a"
    by (simp_all add: variance_schedule_alpha)
  from cumprod_invariant [OF variance_schedule_alpha_range [OF assms(3,4)] this]
  show "case variance_schedule T s max_beta of (alpha, alpha_bar, beta) \<Rightarrow>
            alpha_bar ! 0 = 1
          \<and> (\<forall>t. 1 \<le> t \<and> t \<le> nat T \<longrightarrow> alpha_bar ! t = alpha_bar ! (t - 1) * alpha ! t)
          \<and> (\<forall>t. 1 \<le> t \<and> t \<le> nat T \<longrightarrow> alpha_bar ! t \<le> alpha_bar ! (t - 1))
          \<and> (\<forall>t \<le> nat T. 0 < alpha_bar ! t \<and> alpha_bar ! t \<le> 1)"
    by (subst variance_schedule_parts, simp only: prod.case, blast)
next
  let ?l = "fst (linear_schedule T s max_beta)"
  have "?l ! 0 = 1" and "nat T < length ?l"
    by (simp_all add: linear_schedule_alpha)
  from cumprod_invariant [OF linear_schedule_alpha_range [OF assms(3,4)] this]
  show "case linear_schedule T s max_beta of (alpha, alpha_bar, beta) \<Rightarrow>
            alpha_bar ! 0 = 1
          \<and> (\<forall>t. 1 \<le> t \<and> t \<le> nat T \<longrightarrow> alpha_bar ! t = alpha_bar ! (t - 1) * alpha ! t)
          \<and> (\<forall>t. 1 \<le> t \<and> t \<le> nat T \<longrightarrow> alpha_bar ! t \<le> alpha_bar ! (t - 1))
          \<and> (\<forall>t \<le> nat T. 0 < alpha_bar ! t \<and> alpha_bar ! t \<le> 1)"
    by (subst linear_schedule_parts, simp only: prod.case, blast)
qed

theorem schedule_alpha_bar_invariant_witness:
  "(1::int) \<le> 1 \<and> (0::real) \<le> 0 \<and> (0::real) < 1 / 2 \<and> (1 / 2 :: real) < 1
   \<and> (case variance_schedule 1 0 (1 / 2) of (alpha, alpha_bar, beta) \<Rightarrow>
            alpha_bar ! 0 = 1
          \<and> (\<forall>t. 1 \<le> t \<and> t \<le> nat 1 \<longrightarrow> alpha_bar ! t = alpha_bar ! (t - 1) * alpha ! t)
          \<and> (\<forall>t. 1 \<le> t \<and> t \<le> nat 1 \<longrightarrow> alpha_bar ! t \<le> alpha_bar ! (t - 1))
          \<and> (\<forall>t \<le> nat 1. 0 < alpha_bar ! t \<and> alpha_bar ! t \<le> 1))
   \<and> (case linear_schedule 1 0 (1 / 2) of (alpha, alpha_bar, beta) \<Rightarrow>
            alpha_bar ! 0 = 1
          \<and> (\<forall>t. 1 \<le> t \<and> t \<le> nat 1 \<longrightarrow> alpha_bar ! t = alpha_bar ! (t - 1) * alpha ! t)
          \<and> (\<forall>t. 1 \<le> t \<and> t \<le> nat 1 \<longrightarrow> alpha_bar ! t \<le> alpha_bar ! (t - 1))
          \<and> (\<forall>t \<le> nat 1. 0 < alpha_bar ! t \<and> alpha_bar ! t \<le> 1))"
  using schedule_alpha_bar_invariant [of 1 0 "1 / 2"] by simp

subsection \<open>The cosine schedule decreases\<close>

lemma cos_f_ratio_bounds:
  fixes s :: real
  assumes "1 \<le> T" and "0 \<le> s" and "0 \<le> k" and "k \<le> T"
  shows "0 \<le> (of_int k / of_int T + s) / (1 + s)" and "(of_int k / of_int T + s) / (1 + s) \<le> 1"
proof -
  have "(of_int k :: real) / of_int T \<le> 1" and "0 \<le> (of_int k :: real) / of_int T"
    using assms by simp_all
  then show "0 \<le> (of_int k / of_int T + s) / (1 + s)" and "(of_int k / of_int T + s) / (1 + s) \<le> 1"
    using assms(2) by simp_all
qed

lemma cos_f_ratio_strict:
  fixes s :: real
  assumes "1 \<le> T" and "0 \<le> s" and "k < l"
  shows "(of_int k / of_int T + s) / (1 + s) < (of_int l / of_int T + s) / (1 + s)"
proof -
  have "(of_int k :: real) / of_int T < of_int l / of_int T"
    using assms by (simp add: divide_strict_right_mono)
  then show ?thesis using assms(2) by (simp add: divide_strict_right_mono)
qed

lemma cos_f_pos:
  assumes "1 \<le> T" and "0 \<le> s" and "0 \<le> k" and "k < T"
  shows "0 < cos_f T s k"
proof -
  define r where "r = (of_int k / of_int T + s) / (1 + s)"
  have "0 \<le> r" unfolding r_def using cos_f_ratio_bounds(1) [of T s k] assms by simp
  moreover have "r < (of_int T / of_int T + s) / (1 + s)"
    unfolding r_def using assms by (intro cos_f_ratio_strict) simp_all
  then have "r < 1" using assms by simp
  ultimately have "- (pi / 2) < r * (pi / 2)" and "r * (pi / 2) < 1 * (pi / 2)"
    by (auto intro: less_le_trans [of _ 0])
  then have "0 < cos (r * (pi / 2))" by (intro cos_gt_zero_pi) simp_all
  then show ?thesis by (simp add: cos_f_def r_def)
qed

lemma cos_f_decreasing:
  assumes "1 \<le> T" and "0 \<le> s" and "0 \<le> k" and "k < T"
  shows "cos_f T s (k + 1) < cos_f T s k"
proof -
  define r where "r = (of_int k / of_int T + s) / (1 + s)"
  define r' where "r' = (of_int (k + 1) / of_int T + s) / (1 + s)"
  have r: "0 \<le> r" unfolding r_def using cos_f_ratio_bounds(1) [of T s k] assms by simp
  have r': "r' \<le> 1" unfolding r'_def using cos_f_ratio_bounds(2) [of T s "k + 1"] assms by simp
  have lt: "r < r'" unfolding r_def r'_def using assms by (intro cos_f_ratio_strict) simp_all
  have a0: "0 \<le> r * (pi / 2)" using r by simp
  have a1: "r * (pi / 2) < r' * (pi / 2)" using lt by simp
  have "r' * (pi / 2) \<le> 1 * (pi / 2)" using r' by (intro mult_right_mono) simp_all
  then have a2: "r' * (pi / 2) \<le> pi / 2" by simp
  have "r' * (pi / 2) \<le> pi" using a2 pi_ge_zero by linarith
  then have "cos (r' * (pi / 2)) < cos (r * (pi / 2))"
    using a0 a1 by (intro cos_monotone_0_pi)
  moreover have "0 \<le> cos (r' * (pi / 2))"
    using a0 a1 a2 by (intro cos_ge_zero) linarith+
  ultimately have "(cos (r' * (pi / 2)))\<^sup>2 < (cos (r * (pi / 2)))\<^sup>2"
    by (intro power_strict_mono) simp_all
  then show ?thesis by (simp add: cos_f_def r_def r'_def)
qed

lemma variance_schedule_alpha_nth:
  assumes "t < nat T"
  shows "fst (variance_schedule T s max_beta) ! Suc t
           = clip (cos_f T s (int t + 1) / cos_f T s (int t)) (1 - max_beta) 1"
  using assms by (simp add: variance_schedule_alpha del: upt_Suc)

lemma variance_schedule_alpha_less_1:
  assumes "1 \<le> T" and "0 \<le> s" and "0 < max_beta" and "t < nat T"
  shows "fst (variance_schedule T s max_beta) ! Suc t < 1"
proof -
  have k: "0 \<le> int t" "int t < T" using assms(4) by simp_all
  have "cos_f T s (int t + 1) < cos_f T s (int t)" and "0 < cos_f T s (int t)"
    using cos_f_decreasing [OF assms(1,2) k] cos_f_pos [OF assms(1,2) k] by simp_all
  then have "cos_f T s (int t + 1) / cos_f T s (int t) < 1" by simp
  then have "clip (cos_f T s (int t + 1) / cos_f T s (int t)) (1 - max_beta) 1 < 1"
    using assms(3) by (intro clip_less) simp_all
  then show ?thesis using assms(4) by (simp add: variance_schedule_alpha_nth)
qed


text \<open>
  In exact arithmetic, before anything is rounded: for \<open>T \<ge> 2\<close>, \<open>s \<ge> 0\<close> and \<open>max_beta\<close>
  in \<open>(0, 1)\<close> the cosine schedule has \<open>alpha[t] \<ge> 1 - max_beta > 0\<close> and \<open>alpha_bar[t] < 1\<close>
  for every \<open>t\<close> from \<open>1\<close> to \<open>T - 1\<close>.
\<close>

lemma exact_schedule_divisors_positive:
  assumes "2 \<le> T" and "0 \<le> s" and "0 < max_beta" and "max_beta < 1"
    and "1 \<le> t" and "t \<le> nat T - 1"
  shows "case variance_schedule T s max_beta of (alpha, alpha_cumprod, beta) \<Rightarrow>
           1 - max_beta \<le> alpha ! t \<and> 0 < 1 - max_beta \<and> alpha_cumprod ! t < 1
         \<and> 0 < alpha ! t powr (1 / 2) \<and> 0 < (1 - alpha_cumprod ! t) powr (1 / 2)"
proof -
  let ?a = "fst (variance_schedule T s max_beta)"
  obtain u where u: "t = Suc u" using assms(5) by (cases t) auto
  have T1: "1 \<le> T" using assms(1) by simp
  have tl: "t < length ?a" "1 < length ?a" "u < nat T"
    using assms(1,6) u by (simp_all add: variance_schedule_length)
  have rng: "\<forall>x \<in> set ?a. 0 < x \<and> x \<le> 1"
    by (rule variance_schedule_alpha_range [OF assms(3,4)])
  have lo: "1 - max_beta \<le> ?a ! t"
    using tl(3) clip_bounds [of "1 - max_beta" 1] assms(3) unfolding u
    by (simp add: variance_schedule_alpha_nth)
  have "cumprod ?a ! t \<le> cumprod ?a ! 1"
    using rng tl(1) assms(5) by (intro cumprod_antimono) simp_all
  also have "cumprod ?a ! 1 = cumprod ?a ! 0 * ?a ! 1"
    using cumprod_step [of 0 ?a] tl(2) by simp
  also have "\<dots> = ?a ! 1"
    by (simp add: cumprod_0 variance_schedule_alpha)
  also have "?a ! 1 < 1"
    using variance_schedule_alpha_less_1 [OF T1 assms(2,3), of 0] assms(1) by simp
  finally have ab: "cumprod ?a ! t < 1" .
  have "0 < ?a ! t" using lo assms(4) by simp
  then have "0 < ?a ! t powr (1 / 2)" by simp
  moreover have "0 < (1 - cumprod ?a ! t) powr (1 / 2)" using ab by simp
  ultimately have "1 - max_beta \<le> ?a ! t \<and> 0 < 1 - max_beta \<and> cumprod ?a ! t < 1
         \<and> 0 < ?a ! t powr (1 / 2) \<and> 0 < (1 - cumprod ?a ! t) powr (1 / 2)"
    using lo ab assms(4) by simp
  then show ?thesis
    by (subst variance_schedule_parts, simp only: prod.case)
qed

section \<open>The cosine schedule in float32\<close>

subsection \<open>Rounding to binary32\<close>





















subsection \<open>The first ratio\<close>








subsection \<open>The stored arrays\<close>













section \<open>Forward corruption\<close>

subsection \<open>What the batch preparation computes\<close>

lemma broadcast2_same_length:
  assumes "length xs = n" and "length ys = n"
  shows "broadcast2 f xs ys = Inr (map (\<lambda>k. f (xs ! k) (ys ! k)) [0..<n])"
proof -
  have "map2 f xs ys = map (\<lambda>k. f (xs ! k) (ys ! k)) [0..<n]"
    using assms by (intro nth_equalityI) simp_all
  then show ?thesis using assms by (simp add: broadcast2_def)
qed

lemma random_uniform_int_value:
  assumes "1 \<le> T"
  shows "random_uniform_int raw n 1 (T + 1) = Inr (map (\<lambda>k. 1 + raw k mod T) [0..<n])"
  using assms by (simp add: random_uniform_int_def)

lemma drawn_step_range:
  assumes "1 \<le> T"
  shows "1 \<le> 1 + raw k mod T" and "1 + raw k mod T \<le> (T::int)"
proof -
  have "0 \<le> raw k mod T" and "raw k mod T < T"
    using assms by simp_all
  then show "1 \<le> 1 + raw k mod T" and "1 + raw k mod T \<le> T"
    by linarith+
qed

lemma gather_in_range:
  assumes "\<forall>i \<in> set indices. 0 \<le> i \<and> i < int (length params)"
  shows "gather params indices = Inr (map (\<lambda>k. params ! nat (indices ! k)) [0..<length indices])"
proof -
  have "map (\<lambda>i. params ! nat i) indices = map (\<lambda>k. params ! nat (indices ! k)) [0..<length indices]"
    by (intro nth_equalityI) simp_all
  then show ?thesis using assms by (simp add: gather_def)
qed

lemma gather_drawn_steps:
  assumes "1 \<le> T" and "int (length alpha_cumprod) = T + 1"
  shows "gather alpha_cumprod (map (\<lambda>k. 1 + raw k mod T) [0..<n])
           = Inr (map (\<lambda>k. alpha_cumprod ! nat (1 + raw k mod T)) [0..<n])"
proof -
  have "\<forall>i \<in> set (map (\<lambda>k. 1 + raw k mod T) [0..<n]). 0 \<le> i \<and> i < int (length alpha_cumprod)"
    using drawn_step_range [OF assms(1), of raw] assms(2) by (auto intro: order_trans [of 0 1])
  then show ?thesis
    by (simp add: gather_in_range cong: map_cong)
qed

lemma prepare_batch_value:
  assumes "1 \<le> T" and "int (length alpha_cumprod) = T + 1"
  shows "prepare_batch T alpha_cumprod raw z X =
     Inr (\<lparr>X_noisy = map (\<lambda>k. tadd (scale ((alpha_cumprod ! nat (1 + raw k mod T)) powr (1 / 2)) (rescale X ! k))
                                  (scale ((1 - alpha_cumprod ! nat (1 + raw k mod T)) powr (1 / 2)) (z k)))
                          [0..<length X],
            time = map (\<lambda>k. 1 + raw k mod T) [0..<length X]\<rparr>,
          map z [0..<length X])"
proof -
  have n: "length (rescale X) = length X" by (simp add: rescale_def)
  show ?thesis
    unfolding prepare_batch_def Let_def n
    by (simp add: random_uniform_int_value [OF assms(1)] gather_drawn_steps [OF assms]
        bind_result_def reshape_batch_def random_normal_def
        broadcast2_same_length [where n = "length X"] n cong: map_cong)
qed

lemma drawn_step_nat_range:
  assumes "1 \<le> T"
  shows "nat (1 + raw k mod T) \<in> {1..nat T}"
proof -
  have "1 \<le> 1 + raw k mod T" and "1 + raw k mod T \<le> T"
    using drawn_step_range [OF assms, of raw k] by simp_all
  then have "1 \<le> nat (1 + raw k mod T)" and "nat (1 + raw k mod T) \<le> nat T"
    by arith+
  then show ?thesis by simp
qed

lemma drawn_step_any:
  assumes "1 \<le> t" and "t \<le> (T::int)"
  shows "1 + (t - 1) mod T = t"
  using assms by simp

lemma prepare_batch_steps:
  assumes "1 \<le> T" and "int (length alpha_cumprod) = T + 1"
  shows "(case prepare_batch T alpha_cumprod raw z X of Inl e \<Rightarrow> [] | Inr (d, noise) \<Rightarrow> time d)
           = map (\<lambda>k. 1 + raw k mod T) [0..<length X]"
  by (simp add: prepare_batch_value [OF assms])

lemma steps_of_one_period:
  fixes T :: int
  assumes "1 \<le> T" and "length rs = n" and "set rs \<subseteq> {0..<T}"
  shows "map (\<lambda>k. 1 + (rs ! k) mod T) [0..<n] = map (\<lambda>r. 1 + r) rs"
proof (rule nth_equalityI)
  show "length (map (\<lambda>k. 1 + (rs ! k) mod T) [0..<n]) = length (map (\<lambda>r. 1 + r) rs)"
    using assms(2) by simp
  fix k assume "k < length (map (\<lambda>k. 1 + (rs ! k) mod T) [0..<n])"
  then have k: "k < n" by simp
  then have "rs ! k \<in> {0..<T}" using assms(2,3) by (metis nth_mem subsetD)
  then have "(rs ! k) mod T = rs ! k" by simp
  then show "map (\<lambda>k. 1 + (rs ! k) mod T) [0..<n] ! k = map (\<lambda>r. 1 + r) rs ! k"
    using k assms(2) by simp
qed

lemma prepare_batch_steps_bijection:
  assumes "1 \<le> T" and "int (length alpha_cumprod) = T + 1"
  shows "bij_betw
           (\<lambda>rs. case prepare_batch T alpha_cumprod (\<lambda>k. rs ! k) z X of
                    Inl e \<Rightarrow> [] | Inr (d, noise) \<Rightarrow> time d)
           {rs. length rs = length X \<and> set rs \<subseteq> {0..<T}}
           {ts. length ts = length X \<and> set ts \<subseteq> {1..T}}"
proof (rule bij_betw_byWitness [where f' = "map (\<lambda>t. t - 1)"])
  let ?f = "\<lambda>rs. case prepare_batch T alpha_cumprod (\<lambda>k. rs ! k) z X of
                    Inl e \<Rightarrow> [] | Inr (d, noise) \<Rightarrow> time d"
  have f: "?f rs = map (\<lambda>r. 1 + r) rs" if "length rs = length X" "set rs \<subseteq> {0..<T}" for rs
    using prepare_batch_steps [OF assms, of "\<lambda>k. rs ! k" z X]
      steps_of_one_period [OF assms(1) that] by simp
  show "\<forall>rs \<in> {rs. length rs = length X \<and> set rs \<subseteq> {0..<T}}. map (\<lambda>t. t - 1) (?f rs) = rs"
    using f by (auto simp: comp_def)
  show "\<forall>ts \<in> {ts. length ts = length X \<and> set ts \<subseteq> {1..T}}. ?f (map (\<lambda>t. t - 1) ts) = ts"
  proof
    fix ts assume "ts \<in> {ts. length ts = length X \<and> set ts \<subseteq> {1..T}}"
    then have ts: "length ts = length X" "set ts \<subseteq> {1..T}" by simp_all
    have "r \<in> {0..<T}" if r: "r \<in> set (map (\<lambda>t. t - 1) ts)" for r
    proof -
      obtain t where "t \<in> set ts" "r = t - 1" using r by auto
      then show ?thesis using ts(2) by fastforce
    qed
    then have "set (map (\<lambda>t. t - 1) ts) \<subseteq> {0..<T}" by blast
    moreover have "length (map (\<lambda>t. t - 1) ts) = length X" using ts(1) by simp
    ultimately have "length (map (\<lambda>t. t - 1) ts) = length X" "set (map (\<lambda>t. t - 1) ts) \<subseteq> {0..<T}"
      by blast+
    then have "?f (map (\<lambda>t. t - 1) ts) = map (\<lambda>r. 1 + r) (map (\<lambda>t. t - 1) ts)"
      by (rule f)
    then show "?f (map (\<lambda>t. t - 1) ts) = ts" by (simp add: comp_def)
  qed
  show "?f ` {rs. length rs = length X \<and> set rs \<subseteq> {0..<T}} \<subseteq> {ts. length ts = length X \<and> set ts \<subseteq> {1..T}}"
  proof
    fix ts assume "ts \<in> ?f ` {rs. length rs = length X \<and> set rs \<subseteq> {0..<T}}"
    then obtain rs where rs: "length rs = length X" "set rs \<subseteq> {0..<T}" "ts = ?f rs" by auto
    then have "ts = map (\<lambda>r. 1 + r) rs" using f by simp
    then show "ts \<in> {ts. length ts = length X \<and> set ts \<subseteq> {1..T}}" using rs(1,2) by auto
  qed
  show "map (\<lambda>t. t - 1) ` {ts. length ts = length X \<and> set ts \<subseteq> {1..T}}
      \<subseteq> {rs. length rs = length X \<and> set rs \<subseteq> {0..<T}}"
  proof
    fix rs assume "rs \<in> map (\<lambda>t. t - 1) ` {ts. length ts = length X \<and> set ts \<subseteq> {1..T}}"
    then obtain ts where ts: "length ts = length X" "set ts \<subseteq> {1..T}" "rs = map (\<lambda>t. t - 1) ts"
      by auto
    have "r \<in> {0..<T}" if r: "r \<in> set rs" for r
    proof -
      obtain t where "t \<in> set ts" "r = t - 1" using r ts(3) by auto
      then show ?thesis using ts(2) by fastforce
    qed
    then have "set rs \<subseteq> {0..<T}" by blast
    moreover have "length rs = length X" using ts(1,3) by simp
    ultimately show "rs \<in> {rs. length rs = length X \<and> set rs \<subseteq> {0..<T}}"
      by blast
  qed
qed

text \<open>
  Claim C2. For a schedule \<open>alpha_cumprod\<close> of \<open>T + 1\<close> entries with values in \<open>[0, 1]\<close>,
  \<^verbatim>\<open>prepare_batch\<close> returns, for every sample \<open>k\<close> of the batch, the single blend
  \<open>X_t = sqrt(alpha_bar[t]) * X + sqrt(1 - alpha_bar[t]) * noise\<close> of the clean sample \<open>X\<close>
  (the image rescaled to \<open>[-1, 1]\<close>) with the noise drawn for that sample; no intermediate
  step is computed. The steps are what the integer generator returns for the batch size
  and the bounds \<open>minval = 1\<close>, \<open>maxval = T + 1\<close>: the step of sample \<open>k\<close> is \<open>1 + raw k mod T\<close>,
  a value of \<open>1..T\<close> (never \<open>0\<close>) that depends on the raw draw of that sample alone. As the
  raw draws of the batch run through one period \<open>0..T-1\<close> each, the batch of steps runs
  through every element of \<open>{1..T}^n\<close> exactly once: uniform independent raw draws give
  uniform independent steps over \<open>1..T\<close>.
\<close>

theorem prepare_batch_closed_form:
  assumes "1 \<le> T" and "int (length alpha_cumprod) = T + 1"
    and "\<forall>t \<in> {1..nat T}. 0 \<le> alpha_cumprod ! t \<and> alpha_cumprod ! t \<le> 1"
  shows "(case prepare_batch T alpha_cumprod raw z X of
           Inl e \<Rightarrow> False
         | Inr (d, noise) \<Rightarrow>
             random_uniform_int raw (length X) 1 (T + 1) = Inr (time d)
           \<and> length (X_noisy d) = length X \<and> length (time d) = length X \<and> length noise = length X
           \<and> (\<forall>k < length X.
                 time d ! k = 1 + raw k mod T
               \<and> 1 \<le> time d ! k \<and> time d ! k \<le> T \<and> noise ! k = z k
               \<and> X_noisy d ! k =
                   (\<lambda>i. sqrt (alpha_cumprod ! nat (time d ! k)) * ((X ! k) i * 2 - 1)
                      + sqrt (1 - alpha_cumprod ! nat (time d ! k)) * (noise ! k) i)))
       \<and> bij_betw
           (\<lambda>rs. case prepare_batch T alpha_cumprod (\<lambda>k. rs ! k) z X of
                    Inl e \<Rightarrow> [] | Inr (d, noise) \<Rightarrow> time d)
           {rs. length rs = length X \<and> set rs \<subseteq> {0..<T}}
           {ts. length ts = length X \<and> set ts \<subseteq> {1..T}}"
proof (rule conjI)
  have blend: "tadd (scale ((alpha_cumprod ! nat (1 + raw k mod T)) powr (1 / 2)) (rescale X ! k))
                  (scale ((1 - alpha_cumprod ! nat (1 + raw k mod T)) powr (1 / 2)) (z k))
      = (\<lambda>i. sqrt (alpha_cumprod ! nat (1 + raw k mod T)) * ((X ! k) i * 2 - 1)
                      + sqrt (1 - alpha_cumprod ! nat (1 + raw k mod T)) * z k i)"
    if "k < length X" for k
  proof -
    have "nat (1 + raw k mod T) \<in> {1..nat T}"
      by (rule drawn_step_nat_range [OF assms(1)])
    then have "0 \<le> alpha_cumprod ! nat (1 + raw k mod T)"
      and "alpha_cumprod ! nat (1 + raw k mod T) \<le> 1"
      using assms(3) by blast+
    then show ?thesis
      using that by (simp add: tadd_def scale_def rescale_def powr_half_sqrt)
  qed
  show "case prepare_batch T alpha_cumprod raw z X of
           Inl e \<Rightarrow> False
         | Inr (d, noise) \<Rightarrow>
             random_uniform_int raw (length X) 1 (T + 1) = Inr (time d)
           \<and> length (X_noisy d) = length X \<and> length (time d) = length X \<and> length noise = length X
           \<and> (\<forall>k < length X.
                 time d ! k = 1 + raw k mod T
               \<and> 1 \<le> time d ! k \<and> time d ! k \<le> T \<and> noise ! k = z k
               \<and> X_noisy d ! k =
                   (\<lambda>i. sqrt (alpha_cumprod ! nat (time d ! k)) * ((X ! k) i * 2 - 1)
                      + sqrt (1 - alpha_cumprod ! nat (time d ! k)) * (noise ! k) i))"
    using drawn_step_range [OF assms(1), of raw]
    by (simp add: prepare_batch_value [OF assms(1,2)] blend random_uniform_int_value [OF assms(1)])
  show "bij_betw
           (\<lambda>rs. case prepare_batch T alpha_cumprod (\<lambda>k. rs ! k) z X of
                    Inl e \<Rightarrow> [] | Inr (d, noise) \<Rightarrow> time d)
           {rs. length rs = length X \<and> set rs \<subseteq> {0..<T}}
           {ts. length ts = length X \<and> set ts \<subseteq> {1..T}}"
    by (rule prepare_batch_steps_bijection [OF assms(1,2)])
qed

theorem prepare_batch_closed_form_witness:
  "(1::int) \<le> 2 \<and> int (length [1, 1 / 4, 1 / 16 :: real]) = 2 + 1
   \<and> 0 \<le> [1, 1 / 4, 1 / 16 :: real] ! 1 \<and> [1, 1 / 4, 1 / 16 :: real] ! 1 \<le> 1
   \<and> 0 \<le> [1, 1 / 4, 1 / 16 :: real] ! 2 \<and> [1, 1 / 4, 1 / 16 :: real] ! 2 \<le> 1
   \<and> (case prepare_batch 2 [1, 1 / 4, 1 / 16] int (\<lambda>k (i::unit). real k + 1) [\<lambda>i. 1 / 2, \<lambda>i. 1] of
           Inl e \<Rightarrow> False
         | Inr (d, noise) \<Rightarrow>
             random_uniform_int int (length [\<lambda>i::unit. 1 / 2 :: real, \<lambda>i. 1]) 1 (2 + 1) = Inr (time d)
           \<and> length (X_noisy d) = length [\<lambda>i::unit. 1 / 2 :: real, \<lambda>i. 1]
           \<and> length (time d) = length [\<lambda>i::unit. 1 / 2 :: real, \<lambda>i. 1]
           \<and> length noise = length [\<lambda>i::unit. 1 / 2 :: real, \<lambda>i. 1]
           \<and> (\<forall>k < length [\<lambda>i::unit. 1 / 2 :: real, \<lambda>i. 1].
                 time d ! k = 1 + int k mod 2
               \<and> 1 \<le> time d ! k \<and> time d ! k \<le> 2 \<and> noise ! k = (\<lambda>i. real k + 1)
               \<and> X_noisy d ! k =
                   (\<lambda>i. sqrt ([1, 1 / 4, 1 / 16] ! nat (time d ! k)) * (([\<lambda>i. 1 / 2, \<lambda>i. 1] ! k) i * 2 - 1)
                      + sqrt (1 - [1, 1 / 4, 1 / 16] ! nat (time d ! k)) * (noise ! k) i)))
   \<and> bij_betw
         (\<lambda>rs. case prepare_batch 2 [1, 1 / 4, 1 / 16] (\<lambda>k. rs ! k) (\<lambda>k (i::unit). real k + 1)
                       [\<lambda>i. 1 / 2, \<lambda>i. 1] of
                  Inl e \<Rightarrow> [] | Inr (d, noise) \<Rightarrow> time d)
         {rs. length rs = length [\<lambda>i::unit. 1 / 2 :: real, \<lambda>i. 1] \<and> set rs \<subseteq> {0..<2}}
         {ts. length ts = length [\<lambda>i::unit. 1 / 2 :: real, \<lambda>i. 1] \<and> set ts \<subseteq> {1..2}}"
proof -
  have s: "{Suc 0..2} = {Suc 0, 2}" by auto
  show ?thesis
    using prepare_batch_closed_form [where T = 2 and alpha_cumprod = "[1, 1 / 4, 1 / 16]"
        and raw = int and z = "\<lambda>k (i::unit). real k + 1" and X = "[\<lambda>i. 1 / 2, \<lambda>i. 1]"]
    by (simp add: s)
qed

subsection \<open>Round trip\<close>

lemma subtract_noise_value:
  assumes "1 \<le> T" and "int (length alpha_cumprod) = T + 1"
    and "length Xn = n" and "length noise = n"
  shows "subtract_noise alpha_cumprod Xn (map (\<lambda>k. 1 + raw k mod T) [0..<n]) noise =
     Inr (map (\<lambda>k. tdiv (tsub (Xn ! k)
                           (scale ((1 - alpha_cumprod ! nat (1 + raw k mod T)) powr (1 / 2)) (noise ! k)))
                      ((alpha_cumprod ! nat (1 + raw k mod T)) powr (1 / 2)))
              [0..<n])"
  unfolding subtract_noise_def
  by (simp add: gather_drawn_steps [OF assms(1,2)] bind_result_def reshape_batch_def assms(3,4)
      broadcast2_same_length [where n = n] cong: map_cong)

text \<open>
  Claim C3. For a schedule with \<open>0 < alpha_bar[t] \<le> 1\<close> on the steps \<open>1..T\<close>, every batch
  \<open>X\<close>, every drawn step in \<open>1..T\<close> and every noise: \<^verbatim>\<open>subtract_noise\<close>, given the noisy
  batch, the steps and the noise that \<^verbatim>\<open>prepare_batch\<close> returned, gives back the clean
  batch exactly (in real arithmetic). By \<open>drawn_step_any\<close> every step of \<open>1..T\<close> is the
  image of some raw draw, so the statement covers each of them.
\<close>

theorem subtract_noise_inverts_prepare_batch:
  assumes "1 \<le> T" and "int (length alpha_cumprod) = T + 1"
    and "\<forall>t \<in> {1..nat T}. 0 < alpha_cumprod ! t \<and> alpha_cumprod ! t \<le> 1"
  shows "bind_result (prepare_batch T alpha_cumprod raw z X)
           (\<lambda>(d, noise). subtract_noise alpha_cumprod (X_noisy d) (time d) noise)
         = Inr (rescale X)"
proof -
  have undo: "tdiv (tsub (tadd (scale ((alpha_cumprod ! nat (1 + raw k mod T)) powr (1 / 2)) x)
                              (scale b (z k)))
                        (scale b (z k)))
                  ((alpha_cumprod ! nat (1 + raw k mod T)) powr (1 / 2)) = x" for k x b
  proof -
    have "nat (1 + raw k mod T) \<in> {1..nat T}"
      by (rule drawn_step_nat_range [OF assms(1)])
    then have "0 < alpha_cumprod ! nat (1 + raw k mod T)"
      using assms(3) by blast
    then have "(alpha_cumprod ! nat (1 + raw k mod T)) powr (1 / 2) \<noteq> 0" by simp
    then show ?thesis
      by (simp add: tdiv_def tsub_def tadd_def scale_def fun_eq_iff)
  qed
  let ?Xn = "map (\<lambda>k. tadd (scale ((alpha_cumprod ! nat (1 + raw k mod T)) powr (1 / 2)) (rescale X ! k))
                            (scale ((1 - alpha_cumprod ! nat (1 + raw k mod T)) powr (1 / 2)) (z k)))
                 [0..<length X]"
  let ?noise = "map z [0..<length X]"
  have undo_all: "map (\<lambda>k. tdiv (tsub (?Xn ! k)
                           (scale ((1 - alpha_cumprod ! nat (1 + raw k mod T)) powr (1 / 2)) (?noise ! k)))
                      ((alpha_cumprod ! nat (1 + raw k mod T)) powr (1 / 2)))
              [0..<length X] = rescale X"
    by (intro nth_equalityI) (simp_all add: undo rescale_def)
  have "subtract_noise alpha_cumprod ?Xn (map (\<lambda>k. 1 + raw k mod T) [0..<length X]) ?noise
      = Inr (rescale X)"
    by (subst subtract_noise_value [OF assms(1,2), where n = "length X"])
       (simp_all only: length_map length_upt diff_zero undo_all)
  then show ?thesis
    by (simp add: prepare_batch_value [OF assms(1,2)] bind_result_def)
qed

theorem subtract_noise_inverts_prepare_batch_witness:
  "(1::int) \<le> 2 \<and> int (length [1, 1 / 4, 1 / 16 :: real]) = 2 + 1
   \<and> 0 < [1, 1 / 4, 1 / 16 :: real] ! 1 \<and> [1, 1 / 4, 1 / 16 :: real] ! 1 \<le> 1
   \<and> 0 < [1, 1 / 4, 1 / 16 :: real] ! 2 \<and> [1, 1 / 4, 1 / 16 :: real] ! 2 \<le> 1
   \<and> bind_result (prepare_batch 2 [1, 1 / 4, 1 / 16] int (\<lambda>k (i::unit). real k + 1) [\<lambda>i. 1 / 2, \<lambda>i. 1])
        (\<lambda>(d, noise). subtract_noise [1, 1 / 4, 1 / 16] (X_noisy d) (time d) noise)
      = Inr [\<lambda>i. 0, \<lambda>i. 1]"
proof -
  have s: "{Suc 0..2} = {Suc 0, 2}" by auto
  show ?thesis
    using subtract_noise_inverts_prepare_batch [where T = 2 and alpha_cumprod = "[1, 1 / 4, 1 / 16]"
        and raw = int and z = "\<lambda>k (i::unit). real k + 1" and X = "[\<lambda>i. 1 / 2, \<lambda>i. 1]"]
    by (simp add: s rescale_def)
qed

section \<open>Time encoding\<close>

lemma length_assign_stride: "length (assign_stride k row vs) = length row"
  by (induction vs arbitrary: k row) simp_all

lemma assign_stride_other:
  "(\<forall>j < length vs. c \<noteq> k + 2 * j) \<Longrightarrow> assign_stride k row vs ! c = row ! c"
proof (induction vs arbitrary: k row)
  case Nil
  then show ?case by simp
next
  case (Cons v vs)
  have "c \<noteq> k" using Cons.prems by force
  moreover have "\<forall>j < length vs. c \<noteq> (k + 2) + 2 * j"
  proof (intro allI impI)
    fix j assume "j < length vs"
    then have "c \<noteq> k + 2 * Suc j" using Cons.prems by force
    then show "c \<noteq> (k + 2) + 2 * j" by simp
  qed
  ultimately show ?case using Cons.IH [of "k + 2" "row[k := v]"] by simp
qed

lemma assign_stride_hit:
  "j < length vs \<Longrightarrow> k + 2 * j < length row \<Longrightarrow> assign_stride k row vs ! (k + 2 * j) = vs ! j"
proof (induction vs arbitrary: k row j)
  case Nil
  then show ?case by simp
next
  case (Cons v vs)
  show ?case
  proof (cases j)
    case 0
    have "assign_stride (k + 2) (row[k := v]) vs ! k = (row[k := v]) ! k"
      by (rule assign_stride_other) simp
    then show ?thesis using 0 Cons.prems by simp
  next
    case (Suc j')
    then have "assign_stride (k + 2) (row[k := v]) vs ! ((k + 2) + 2 * j') = vs ! j'"
      using Cons.prems by (intro Cons.IH) simp_all
    then show ?thesis using Suc by (simp add: add.assoc)
  qed
qed

lemma interleaved_row:
  assumes "length sins = h" and "length coss = h" and "length row = 2 * h"
  shows "length (assign_stride 1 (assign_stride 0 row sins) coss) = 2 * h"
    and "j < h \<Longrightarrow> assign_stride 1 (assign_stride 0 row sins) coss ! (2 * j) = sins ! j"
    and "j < h \<Longrightarrow> assign_stride 1 (assign_stride 0 row sins) coss ! (2 * j + 1) = coss ! j"
proof -
  show "length (assign_stride 1 (assign_stride 0 row sins) coss) = 2 * h"
    using assms by (simp add: length_assign_stride)
  show "assign_stride 1 (assign_stride 0 row sins) coss ! (2 * j) = sins ! j" if "j < h"
  proof -
    have "\<forall>j' < length coss. 2 * j \<noteq> 1 + 2 * j'" by presburger
    then have "assign_stride 1 (assign_stride 0 row sins) coss ! (2 * j)
        = assign_stride 0 row sins ! (2 * j)"
      by (rule assign_stride_other)
    also have "\<dots> = sins ! j"
      using assign_stride_hit [of j sins 0 row] that assms by simp
    finally show ?thesis .
  qed
  show "assign_stride 1 (assign_stride 0 row sins) coss ! (2 * j + 1) = coss ! j" if "j < h"
    using assign_stride_hit [of j coss 1 "assign_stride 0 row sins"] that assms
    by (simp add: length_assign_stride add.commute)
qed

lemma TimeEncoding_init_value:
  assumes "0 \<le> T + 1" and "0 \<le> embed_size" and "embed_size mod 2 = 0"
  shows "TimeEncoding_init u T embed_size =
    Inr \<lparr>time_encodings =
      map (\<lambda>t. assign_stride 1
                  (assign_stride 0 (replicate (nat embed_size) u)
                     (map (\<lambda>j. sin (angle embed_size (int t) (2 * int j))) [0..<nat (embed_size div 2)]))
                  (map (\<lambda>j. cos (angle embed_size (int t) (2 * int j))) [0..<nat (embed_size div 2)]))
          [0..<nat (T + 1)]\<rparr>"
proof -
  let ?rows = "nat (T + 1)" and ?h = "nat (embed_size div 2)"
  let ?p = "fst (meshgrid (arange (T + 1)) (map (\<lambda>j. 2 * j) (arange (embed_size div 2))))"
  let ?i = "snd (meshgrid (arange (T + 1)) (map (\<lambda>j. 2 * j) (arange (embed_size div 2))))"
  have grid: "map2 (map2 (\<lambda>p i. g (angle embed_size p i))) ?p ?i ! c ! r
      = g (angle embed_size (int r) (2 * int c))" if "c < ?h" "r < ?rows" for g :: "real \<Rightarrow> real" and c r
    using that by (simp add: meshgrid_def length_arange arange_nth)
  have tr: "transposed ?rows ?h (map2 (map2 (\<lambda>p i. g (angle embed_size p i))) ?p ?i)
      = map (\<lambda>r. map (\<lambda>c. g (angle embed_size (int r) (2 * int c))) [0..<?h]) [0..<?rows]"
    for g :: "real \<Rightarrow> real"
    unfolding transposed_def by (intro map_cong refl) (simp add: grid)
  have "assign_cols 1 (assign_cols 0 (np_empty u ?rows (nat embed_size))
           (map (\<lambda>r. map (\<lambda>c. sin (angle embed_size (int r) (2 * int c))) [0..<?h]) [0..<?rows]))
           (map (\<lambda>r. map (\<lambda>c. cos (angle embed_size (int r) (2 * int c))) [0..<?h]) [0..<?rows])
     = map (\<lambda>t. assign_stride 1
                  (assign_stride 0 (replicate (nat embed_size) u)
                     (map (\<lambda>j. sin (angle embed_size (int t) (2 * int j))) [0..<?h]))
                  (map (\<lambda>j. cos (angle embed_size (int t) (2 * int j))) [0..<?h]))
          [0..<?rows]"
    unfolding assign_cols_def np_empty_def
    by (intro nth_equalityI) simp_all
  then show ?thesis
    using assms unfolding TimeEncoding_init_def
    by (simp add: Let_def case_prod_beta tr)
qed

text \<open>
  Claim C9. For \<open>T \<ge> 1\<close> and an even width \<open>embed_size \<ge> 0\<close> the constructor succeeds;
  the table has \<open>T + 1\<close> rows of \<open>embed_size\<close> entries; in row \<open>t\<close>, column \<open>2i\<close> holds
  \<open>sin(t / 10000^(2i/embed_size))\<close> and column \<open>2i + 1\<close> holds \<open>cos(t / 10000^(2i/embed_size))\<close>
  for \<open>i = 0, \<dots>, embed_size/2 - 1\<close>; row \<open>0\<close> is \<open>0, 1, 0, 1, \<dots>\<close>.
\<close>

theorem time_encoding_table:
  assumes "1 \<le> T" and "0 \<le> embed_size" and "embed_size mod 2 = 0"
  shows "case TimeEncoding_init u T embed_size of
           Inl e \<Rightarrow> False
         | Inr enc \<Rightarrow>
             length (time_encodings enc) = nat (T + 1)
           \<and> (\<forall>t < nat (T + 1).
                 length (time_encodings enc ! t) = nat embed_size
               \<and> (\<forall>i < nat (embed_size div 2).
                     time_encodings enc ! t ! (2 * i)
                       = sin (real t / 10000 powr (real (2 * i) / real_of_int embed_size))
                   \<and> time_encodings enc ! t ! (2 * i + 1)
                       = cos (real t / 10000 powr (real (2 * i) / real_of_int embed_size))))
           \<and> (\<forall>c < nat embed_size. time_encodings enc ! 0 ! c = (if even c then 0 else 1))"
proof -
  let ?h = "nat (embed_size div 2)"
  let ?row = "\<lambda>t. assign_stride 1
                  (assign_stride 0 (replicate (nat embed_size) u)
                     (map (\<lambda>j. sin (angle embed_size (int t) (2 * int j))) [0..<?h]))
                  (map (\<lambda>j. cos (angle embed_size (int t) (2 * int j))) [0..<?h])"
  have "embed_size = 2 * (embed_size div 2)" using assms(3) by presburger
  then have "nat embed_size = nat (2 * (embed_size div 2))" by simp
  also have "\<dots> = 2 * ?h" by (simp add: nat_mult_distrib)
  finally have e: "nat embed_size = 2 * ?h" .
  have len: "length (?row t) = nat embed_size" for t
    by (simp add: length_assign_stride)
  have ev: "?row t ! (2 * i) = sin (angle embed_size (int t) (2 * int i))" if "i < ?h" for t i
    using interleaved_row(2) [where h = ?h and j = i, OF _ _ _ that] that e by simp
  have od: "?row t ! (2 * i + 1) = cos (angle embed_size (int t) (2 * int i))" if "i < ?h" for t i
    using interleaved_row(3) [where h = ?h and j = i, OF _ _ _ that] that e by simp
  have row0: "?row 0 ! c = (if even c then 0 else 1)" if "c < nat embed_size" for c
  proof (cases "even c")
    case True
    then obtain i where i: "c = 2 * i" by (auto elim: evenE)
    then have "i < ?h" using that e by simp
    then show ?thesis using ev [of i 0] i by (simp add: angle_def)
  next
    case False
    then obtain i where i: "c = 2 * i + 1" by (auto elim: oddE)
    then have "i < ?h" using that e by simp
    then show ?thesis using od [of i 0] i by (simp add: angle_def)
  qed
  have T: "0 \<le> T + 1" "0 < nat (T + 1)" using assms(1) by simp_all
  have "length (map ?row [0..<nat (T + 1)]) = nat (T + 1)
      \<and> (\<forall>t < nat (T + 1).
                 length (map ?row [0..<nat (T + 1)] ! t) = nat embed_size
               \<and> (\<forall>i < nat (embed_size div 2).
                     map ?row [0..<nat (T + 1)] ! t ! (2 * i)
                       = sin (real t / 10000 powr (real (2 * i) / real_of_int embed_size))
                   \<and> map ?row [0..<nat (T + 1)] ! t ! (2 * i + 1)
                       = cos (real t / 10000 powr (real (2 * i) / real_of_int embed_size))))
      \<and> (\<forall>c < nat embed_size. map ?row [0..<nat (T + 1)] ! 0 ! c = (if even c then 0 else 1))"
  proof (intro conjI allI impI)
    show "length (map ?row [0..<nat (T + 1)]) = nat (T + 1)" by simp
  next
    fix t assume "t < nat (T + 1)"
    then show "length (map ?row [0..<nat (T + 1)] ! t) = nat embed_size"
      using len [of t] by simp
  next
    fix t i assume "t < nat (T + 1)" and "i < nat (embed_size div 2)"
    then show "map ?row [0..<nat (T + 1)] ! t ! (2 * i)
        = sin (real t / 10000 powr (real (2 * i) / real_of_int embed_size))"
      using ev [of i t] by (simp add: angle_def)
  next
    fix t i assume "t < nat (T + 1)" and "i < nat (embed_size div 2)"
    then show "map ?row [0..<nat (T + 1)] ! t ! (2 * i + 1)
        = cos (real t / 10000 powr (real (2 * i) / real_of_int embed_size))"
      using od [of i t] by (simp add: angle_def)
  next
    fix c assume "c < nat embed_size"
    then show "map ?row [0..<nat (T + 1)] ! 0 ! c = (if even c then 0 else 1)"
      using row0 [of c] T(2) by (simp del: upt_Suc)
  qed
  then show ?thesis
    by (subst TimeEncoding_init_value [OF T(1) assms(2,3)],
        simp only: sum.case time_encoding.select_convs, blast)
qed

theorem time_encoding_table_witness:
  "(1::int) \<le> 1 \<and> (0::int) \<le> 2 \<and> (2::int) mod 2 = 0
   \<and> (case TimeEncoding_init 7 1 2 of
           Inl e \<Rightarrow> False
         | Inr enc \<Rightarrow>
             length (time_encodings enc) = nat (1 + 1)
           \<and> (\<forall>t < nat (1 + 1).
                 length (time_encodings enc ! t) = nat 2
               \<and> (\<forall>i < nat (2 div 2).
                     time_encodings enc ! t ! (2 * i)
                       = sin (real t / 10000 powr (real (2 * i) / real_of_int 2))
                   \<and> time_encodings enc ! t ! (2 * i + 1)
                       = cos (real t / 10000 powr (real (2 * i) / real_of_int 2))))
           \<and> (\<forall>c < nat 2. time_encodings enc ! 0 ! c = (if even c then 0 else 1)))"
  using time_encoding_table [of 1 2 7] by simp

section \<open>Configuration errors\<close>

text \<open>
  Claim C8 says that the schedule computation fails for \<open>T < 1\<close> and for \<open>max_beta\<close>
  outside \<open>(0, 1)\<close>. The code validates neither: \<^verbatim>\<open>variance_schedule(0)\<close> returns the
  one-entry schedule \<open>([1], [1], [0])\<close> (its \<^verbatim>\<open>f\<close> has the single entry for \<open>t = 0\<close>, whose
  quotient \<open>0 / 0\<close> is computed with a warning and never used, since one entry gives no
  ratio of neighbours), and \<^verbatim>\<open>variance_schedule(1, 0, 0)\<close>, with \<open>max_beta = 0\<close>, returns
  \<open>([1, 1], [1, 1], [0, 0])\<close>.
\<close>

theorem schedule_validation_counterexample:
  "variance_schedule_call 0 (8 / 1000) (999 / 1000) = Inr ([1], [1], [0])
   \<and> variance_schedule_call 1 0 0 = Inr ([1, 1], [1, 1], [0, 0])"
proof -
  have "fst (variance_schedule 0 (8 / 1000) (999 / 1000)) = [1]"
    by (simp add: variance_schedule_alpha)
  moreover have "fst (variance_schedule 1 0 0) = [1, 1]"
    by (simp add: variance_schedule_alpha clip_def)
  ultimately show ?thesis
    unfolding variance_schedule_call_def
    by (subst (1 2) variance_schedule_parts) (simp add: cumprod_def)
qed

lemma cumprod_replicate_1: "cumprod (replicate n 1) = replicate n 1"
proof -
  have "cumprod_from 1 (replicate n 1) = replicate n 1"
    by (induction n) simp_all
  then show ?thesis by (simp add: cumprod_def)
qed

lemma variance_schedule_below_1:
  assumes "T < 1"
  shows "variance_schedule T s max_beta = ([1], [1], [0])"
proof -
  have "fst (variance_schedule T s max_beta) = [1]"
    using assms by (simp add: variance_schedule_alpha)
  then show ?thesis
    by (subst variance_schedule_parts) (simp add: cumprod_def)
qed

lemma linear_schedule_below_0:
  assumes "T < 0"
  shows "linear_schedule T s max_beta = ([1], [1], [0])"
proof -
  have "fst (linear_schedule T s max_beta) = [1]"
    using assms by (simp add: linear_schedule_alpha)
  then show ?thesis
    by (subst linear_schedule_parts) (simp add: cumprod_def)
qed

lemma clip_no_room: "1 \<le> lo \<Longrightarrow> clip x lo 1 = 1"
  by (simp add: clip_def)

lemma variance_schedule_no_noise:
  assumes "max_beta \<le> 0"
  shows "variance_schedule T s max_beta
           = (replicate (nat T + 1) 1, replicate (nat T + 1) 1, replicate (nat T + 1) 0)"
proof -
  have "fst (variance_schedule T s max_beta) = replicate (nat T + 1) 1"
    using assms by (simp add: variance_schedule_alpha clip_no_room map_replicate_const)
  then show ?thesis
    by (subst variance_schedule_parts) (simp add: cumprod_replicate_1 del: replicate_Suc)
qed

lemma linear_schedule_no_noise:
  assumes "max_beta \<le> 0"
  shows "\<forall>a \<in> set (fst (linear_schedule T s max_beta)). a = 1"
  using assms by (auto simp: linear_schedule_alpha clip_no_room)

lemma variance_schedule_unclipped:
  assumes "1 \<le> T" and "0 \<le> s" and "1 \<le> max_beta" and "1 \<le> t" and "t \<le> nat T"
  shows "fst (variance_schedule T s max_beta) ! t = cos_f T s (int t) / cos_f T s (int t - 1)"
proof -
  obtain u where u: "t = Suc u" using assms(4) by (cases t) auto
  then have ut: "u < nat T" using assms(5) by simp
  have k: "0 \<le> int u" "int u < T" using ut by simp_all
  have pos: "0 < cos_f T s (int u)" by (rule cos_f_pos [OF assms(1,2) k])
  have "cos_f T s (int u + 1) < cos_f T s (int u)" by (rule cos_f_decreasing [OF assms(1,2) k])
  then have hi: "cos_f T s (int u + 1) / cos_f T s (int u) \<le> 1" using pos by simp
  have "0 \<le> cos_f T s (int u + 1)" by (simp add: cos_f_def)
  then have lo: "0 \<le> cos_f T s (int u + 1) / cos_f T s (int u)" using pos by simp
  have "clip (cos_f T s (int u + 1) / cos_f T s (int u)) (1 - max_beta) 1
      = cos_f T s (int u + 1) / cos_f T s (int u)"
    unfolding clip_def using lo hi assms(3) by linarith
  then show ?thesis
    using ut by (simp add: u variance_schedule_alpha_nth add.commute)
qed

lemma TimeEncoding_init_errors:
  "TimeEncoding_init u T embed_size = Inl AssertionError \<longleftrightarrow> embed_size mod 2 \<noteq> 0"
  "TimeEncoding_init u T embed_size = Inl ValueError
     \<longleftrightarrow> embed_size mod 2 = 0 \<and> (T + 1 < 0 \<or> embed_size < 0)"
  by (auto simp: TimeEncoding_init_def Let_def case_prod_beta)

lemma lin_f_range:
  assumes "1 \<le> T" and "0 \<le> k" and "k \<le> T"
  shows "0 \<le> lin_f T k" and "lin_f T k \<le> 1"
proof -
  have "0 \<le> (of_int k :: real) / of_int T" and "(of_int k :: real) / of_int T \<le> 1"
    using assms by simp_all
  then have "0 \<le> step_scale * (of_int k / of_int T)" and "step_scale * (of_int k / of_int T) \<le> 1"
    by (simp_all add: step_scale_def)
  then show "0 \<le> lin_f T k" and "lin_f T k \<le> 1"
    by (simp_all add: lin_f_def)
qed

lemma linear_schedule_unclipped:
  assumes "1 \<le> T" and "1 \<le> max_beta"
  shows "\<forall>a \<in> set (fst (linear_schedule T s max_beta)). \<exists>k \<in> {0..T}. a = lin_f T k"
proof
  fix a assume "a \<in> set (fst (linear_schedule T s max_beta))"
  then consider "a = 1" | j where "j < nat (T + 1)" "a = clip (lin_f T (int j)) (1 - max_beta) 1"
    by (auto simp: linear_schedule_alpha)
  then show "\<exists>k \<in> {0..T}. a = lin_f T k"
  proof cases
    case 1
    have "lin_f T 0 = 1" by (simp add: lin_f_def)
    then show ?thesis using 1 assms(1) by force
  next
    case 2
    have j: "0 \<le> int j" "int j \<le> T" using 2(1) by simp_all
    have "0 \<le> lin_f T (int j)" "lin_f T (int j) \<le> 1"
      using lin_f_range [OF assms(1) j] by simp_all
    then have "clip (lin_f T (int j)) (1 - max_beta) 1 = lin_f T (int j)"
      unfolding clip_def using assms(2) by linarith
    then show ?thesis using 2(2) j by force
  qed
qed

text \<open>
  Claim C8, amended. The odd width is detected eagerly: constructing the time encoding
  raises an assertion error exactly when \<^verbatim>\<open>embed_size\<close> is odd, before anything is
  computed; with an even \<^verbatim>\<open>embed_size\<close> it raises \<^verbatim>\<open>np.empty\<close>'s value error exactly when
  \<open>T < -1\<close> or \<open>embed_size < 0\<close>. The schedule functions check nothing and return a value
  for an invalid \<open>T\<close> or \<open>max_beta\<close>, which they use as it is given:
  \<^item> \<^verbatim>\<open>variance_schedule\<close> returns \<open>([1], [1], [0])\<close> for every \<open>T < 1\<close>; for \<open>T \<ge> 1\<close>,
    \<open>s \<ge> 0\<close> it returns the constant schedule \<open>alpha = alpha_bar = 1\<close>, \<open>beta = 0\<close> of
    \<open>T + 1\<close> entries when \<open>max_beta \<le> 0\<close>, and the unclipped ratios
    \<open>alpha[t] = f(t)/f(t-1)\<close>, \<open>t = 1..T\<close>, when \<open>max_beta \<ge> 1\<close>;
  \<^item> \<^verbatim>\<open>linear_schedule\<close> returns \<open>([1], [1], [0])\<close> for every \<open>T < 0\<close>; for \<open>T \<ge> 1\<close>
    every entry of its \<open>alpha\<close> is \<open>1\<close> when \<open>max_beta \<le> 0\<close>, and is an unclipped entry
    \<open>f(k)\<close>, \<open>0 \<le> k \<le> T\<close>, when \<open>max_beta \<ge> 1\<close>. (At \<open>T = 0\<close> it divides \<open>0\<close> by \<open>0\<close> and
    puts the result into \<open>alpha\<close>; that case is left out.)
\<close>

theorem configuration_errors:
  "(TimeEncoding_init u T embed_size = Inl AssertionError \<longleftrightarrow> embed_size mod 2 \<noteq> 0)
   \<and> (TimeEncoding_init u T embed_size = Inl ValueError
        \<longleftrightarrow> embed_size mod 2 = 0 \<and> (T + 1 < 0 \<or> embed_size < 0))
   \<and> (T' < 1 \<longrightarrow> variance_schedule_call T' s max_beta = Inr ([1], [1], [0]))
   \<and> (1 \<le> T' \<and> 0 \<le> s \<and> max_beta \<le> 0 \<longrightarrow>
        variance_schedule_call T' s max_beta
          = Inr (replicate (nat T' + 1) 1, replicate (nat T' + 1) 1, replicate (nat T' + 1) 0))
   \<and> (1 \<le> T' \<and> 0 \<le> s \<and> 1 \<le> max_beta \<longrightarrow>
        (case variance_schedule_call T' s max_beta of
           Inl e \<Rightarrow> False
         | Inr (alpha, alpha_cumprod, beta) \<Rightarrow>
             length alpha = nat T' + 1
           \<and> (\<forall>t \<in> {1..nat T'}. alpha ! t = cos_f T' s (int t) / cos_f T' s (int t - 1))))
   \<and> (T' < 0 \<longrightarrow> linear_schedule_call T' s max_beta = Inr ([1], [1], [0]))
   \<and> (1 \<le> T' \<and> max_beta \<le> 0 \<longrightarrow>
        (case linear_schedule_call T' s max_beta of
           Inl e \<Rightarrow> False
         | Inr (alpha, alpha_cumprod, beta) \<Rightarrow> \<forall>a \<in> set alpha. a = 1))
   \<and> (1 \<le> T' \<and> 1 \<le> max_beta \<longrightarrow>
        (case linear_schedule_call T' s max_beta of
           Inl e \<Rightarrow> False
         | Inr (alpha, alpha_cumprod, beta) \<Rightarrow> \<forall>a \<in> set alpha. \<exists>k \<in> {0..T'}. a = lin_f T' k))"
proof (intro conjI impI)
  show "TimeEncoding_init u T embed_size = Inl AssertionError \<longleftrightarrow> embed_size mod 2 \<noteq> 0"
    by (rule TimeEncoding_init_errors(1))
  show "TimeEncoding_init u T embed_size = Inl ValueError
        \<longleftrightarrow> embed_size mod 2 = 0 \<and> (T + 1 < 0 \<or> embed_size < 0)"
    by (rule TimeEncoding_init_errors(2))
  show "variance_schedule_call T' s max_beta = Inr ([1], [1], [0])" if "T' < 1"
    using that by (simp add: variance_schedule_call_def variance_schedule_below_1)
  show "variance_schedule_call T' s max_beta
          = Inr (replicate (nat T' + 1) 1, replicate (nat T' + 1) 1, replicate (nat T' + 1) 0)"
    if "1 \<le> T' \<and> 0 \<le> s \<and> max_beta \<le> 0"
    using that by (simp only: variance_schedule_call_def variance_schedule_no_noise)
  show "case variance_schedule_call T' s max_beta of
           Inl e \<Rightarrow> False
         | Inr (alpha, alpha_cumprod, beta) \<Rightarrow>
             length alpha = nat T' + 1
           \<and> (\<forall>t \<in> {1..nat T'}. alpha ! t = cos_f T' s (int t) / cos_f T' s (int t - 1))"
    if h: "1 \<le> T' \<and> 0 \<le> s \<and> 1 \<le> max_beta"
  proof -
    have "length (fst (variance_schedule T' s max_beta)) = nat T' + 1
        \<and> (\<forall>t \<in> {1..nat T'}. fst (variance_schedule T' s max_beta) ! t
               = cos_f T' s (int t) / cos_f T' s (int t - 1))"
      using h variance_schedule_unclipped [of T' s max_beta]
      by (simp add: variance_schedule_length)
    then show ?thesis
      unfolding variance_schedule_call_def
      by (subst variance_schedule_parts, simp only: sum.case prod.case, blast)
  qed
  show "linear_schedule_call T' s max_beta = Inr ([1], [1], [0])" if "T' < 0"
    using that by (simp add: linear_schedule_call_def linear_schedule_below_0)
  show "case linear_schedule_call T' s max_beta of
           Inl e \<Rightarrow> False
         | Inr (alpha, alpha_cumprod, beta) \<Rightarrow> \<forall>a \<in> set alpha. a = 1"
    if h: "1 \<le> T' \<and> max_beta \<le> 0"
  proof -
    have "\<forall>a \<in> set (fst (linear_schedule T' s max_beta)). a = 1"
      using h by (intro linear_schedule_no_noise) simp
    then show ?thesis
      unfolding linear_schedule_call_def
      by (subst linear_schedule_parts, simp only: sum.case prod.case, blast?)
  qed
  show "case linear_schedule_call T' s max_beta of
           Inl e \<Rightarrow> False
         | Inr (alpha, alpha_cumprod, beta) \<Rightarrow> \<forall>a \<in> set alpha. \<exists>k \<in> {0..T'}. a = lin_f T' k"
    if h: "1 \<le> T' \<and> 1 \<le> max_beta"
  proof -
    have "\<forall>a \<in> set (fst (linear_schedule T' s max_beta)). \<exists>k \<in> {0..T'}. a = lin_f T' k"
      using h by (intro linear_schedule_unclipped) simp_all
    then show ?thesis
      unfolding linear_schedule_call_def
      by (subst linear_schedule_parts, simp only: sum.case prod.case, blast?)
  qed
qed

theorem configuration_errors_witness:
  "TimeEncoding_init 0 4000 3 = Inl AssertionError
   \<and> TimeEncoding_init 0 (- 2) 2 = Inl ValueError
   \<and> TimeEncoding_init 0 4000 64 \<noteq> Inl AssertionError
   \<and> TimeEncoding_init 0 4000 64 \<noteq> Inl ValueError
   \<and> variance_schedule_call (- 3) (8 / 1000) (999 / 1000) = Inr ([1], [1], [0])
   \<and> variance_schedule_call 2 0 0 = Inr ([1, 1, 1], [1, 1, 1], [0, 0, 0])
   \<and> (case variance_schedule_call 2 0 1 of
         Inl e \<Rightarrow> False
       | Inr (alpha, alpha_cumprod, beta) \<Rightarrow>
           length alpha = nat 2 + 1
         \<and> (\<forall>t \<in> {1..nat 2}. alpha ! t = cos_f 2 0 (int t) / cos_f 2 0 (int t - 1)))
   \<and> linear_schedule_call (- 1) (8 / 1000) (999 / 1000) = Inr ([1], [1], [0])
   \<and> (case linear_schedule_call 2 0 0 of
         Inl e \<Rightarrow> False
       | Inr (alpha, alpha_cumprod, beta) \<Rightarrow> \<forall>a \<in> set alpha. a = 1)
   \<and> (case linear_schedule_call 2 0 1 of
         Inl e \<Rightarrow> False
       | Inr (alpha, alpha_cumprod, beta) \<Rightarrow> \<forall>a \<in> set alpha. \<exists>k \<in> {0..2}. a = lin_f 2 k)"
  using configuration_errors [where u = 0 and T = 4000 and embed_size = 3 and T' = "- 3"
      and s = "8 / 1000" and max_beta = "999 / 1000"]
    configuration_errors [where u = 0 and T = "- 2" and embed_size = 2 and T' = "- 1"
      and s = "8 / 1000" and max_beta = "999 / 1000"]
    configuration_errors [where u = 0 and T = 4000 and embed_size = 64 and T' = 2
      and s = 0 and max_beta = 0]
    configuration_errors [where u = 0 and T = 4000 and embed_size = 64 and T' = 2
      and s = 0 and max_beta = 1]
  by (simp add: numeral_3_eq_3)

section \<open>Reverse sampler\<close>

lemma index_in_range: "0 \<le> i \<Longrightarrow> i < int (length a) \<Longrightarrow> index a i = Inr (a ! nat i)"
  by (simp add: index_def)

lemma generate_step_in_range:
  assumes "0 \<le> t" and "t < int (length alpha)" and "t < int (length alpha_cumprod)"
    and "t < int (length beta)"
  shows "generate_step alpha alpha_cumprod beta t X X_noise noise =
           Inr (\<lambda>i. 1 / (alpha ! nat t) powr (1 / 2)
                      * (X i - beta ! nat t / (1 - alpha_cumprod ! nat t) powr (1 / 2) * X_noise i)
                    + (1 - alpha ! nat t) powr (1 / 2) * noise i)"
  using assms by (simp add: generate_step_def bind_result_def index_in_range)

lemma generate_step_reverse_update:
  assumes "0 \<le> t" and "t < int (length alpha)" and "t < int (length alpha_cumprod)"
    and "t < int (length beta)"
    and "0 < alpha ! nat t" and "alpha ! nat t \<le> 1" and "alpha_cumprod ! nat t < 1"
  shows "generate_step alpha alpha_cumprod beta t X X_noise noise =
           Inr (reverse_update (alpha ! nat t) (alpha_cumprod ! nat t) (beta ! nat t) X X_noise noise)"
  using assms
  by (simp add: generate_step_in_range reverse_update_def powr_half_sqrt)

lemma generate_loop_refines:
  assumes "int n < int (length alpha)" and "int n < int (length alpha_cumprod)"
    and "int n < int (length beta)"
    and "\<forall>t \<in> {1..n}. 0 < alpha ! t \<and> alpha ! t \<le> 1 \<and> alpha_cumprod ! t < 1"
  shows "generate_loop model alpha alpha_cumprod beta normal (int n) X k =
           Inr (reverse_sampler model alpha alpha_cumprod beta normal n X k)"
  using assms
proof (induction n arbitrary: X k)
  case 0
  then show ?case by (subst generate_loop.simps) simp
next
  case (Suc n)
  have step: "generate_step alpha alpha_cumprod beta (int (Suc n)) X Xn z =
      Inr (reverse_update (alpha ! Suc n) (alpha_cumprod ! Suc n) (beta ! Suc n) X Xn z)" for Xn z
    using Suc.prems generate_step_reverse_update [of "int (Suc n)" alpha alpha_cumprod beta X Xn z]
    by (simp del: of_nat_Suc)
  have ih: "generate_loop model alpha alpha_cumprod beta normal (int n) X' k' =
      Inr (reverse_sampler model alpha alpha_cumprod beta normal n X' k')" for X' k'
    using Suc.prems by (intro Suc.IH) simp_all
  have pred: "int (Suc n) - 1 = int n" by simp
  show ?case
    by (subst generate_loop.simps) (simp add: step ih pred Let_def del: of_nat_Suc)
qed

text \<open>
  Claim C1. For \<open>T \<ge> 1\<close> and a schedule of \<open>T + 1\<close> entries (with \<open>0 < alpha[t] \<le> 1\<close> and
  \<open>alpha_bar[t] < 1\<close> on the steps the loop visits), \<^verbatim>\<open>generate\<close> returns, without an
  error, what the sampler of the specification computes: it starts from the first normal
  draw, walks \<open>t\<close> from \<open>T - 1\<close> down to \<open>1\<close>, and replaces \<open>X\<close> at step \<open>t\<close> by
  \<open>(1/sqrt(alpha[t])) * (X - beta[t]/sqrt(1 - alpha_bar[t]) * noise_pred) + sqrt(1 - alpha[t]) * z\<close>
  with \<open>noise_pred\<close> the model's prediction at \<open>(X, t)\<close> and \<open>z\<close> the next normal draw while
  \<open>t > 1\<close>, the zero tensor at \<open>t = 1\<close>.
\<close>

theorem generate_refines_reverse_sampler:
  assumes "1 \<le> T"
    and "int (length alpha) = T + 1" and "int (length alpha_cumprod) = T + 1"
    and "int (length beta) = T + 1"
    and "\<forall>t \<in> {1..nat (T - 1)}. 0 < alpha ! t \<and> alpha ! t \<le> 1 \<and> alpha_cumprod ! t < 1"
  shows "generate model T alpha alpha_cumprod beta normal =
           Inr (reverse_sampler model alpha alpha_cumprod beta normal (nat (T - 1)) (normal 0) 1)"
proof -
  have "T - 1 = int (nat (T - 1))" using assms(1) by simp
  moreover have "int (nat (T - 1)) < int (length alpha)"
    "int (nat (T - 1)) < int (length alpha_cumprod)" "int (nat (T - 1)) < int (length beta)"
    using assms(1-4) by simp_all
  ultimately show ?thesis
    unfolding generate_def using generate_loop_refines [OF _ _ _ assms(5)] by metis
qed

theorem generate_refines_reverse_sampler_witness:
  "(1::int) \<le> 3
   \<and> int (length [1, 1 / 4, 1 / 4, 1 / 4 :: real]) = 3 + 1
   \<and> int (length [1, 1 / 4, 1 / 16, 1 / 64 :: real]) = 3 + 1
   \<and> int (length [0, 3 / 4, 3 / 4, 3 / 4 :: real]) = 3 + 1
   \<and> 0 < [1, 1 / 4, 1 / 4, 1 / 4 :: real] ! 1 \<and> [1, 1 / 4, 1 / 4, 1 / 4 :: real] ! 1 \<le> 1
   \<and> [1, 1 / 4, 1 / 16, 1 / 64 :: real] ! 1 < 1
   \<and> 0 < [1, 1 / 4, 1 / 4, 1 / 4 :: real] ! 2 \<and> [1, 1 / 4, 1 / 4, 1 / 4 :: real] ! 2 \<le> 1
   \<and> [1, 1 / 4, 1 / 16, 1 / 64 :: real] ! 2 < 1
   \<and> generate (\<lambda>X t. X) 3 [1, 1 / 4, 1 / 4, 1 / 4] [1, 1 / 4, 1 / 16, 1 / 64] [0, 3 / 4, 3 / 4, 3 / 4]
        (\<lambda>k (i::unit). real k)
      = Inr (reverse_sampler (\<lambda>X t. X) [1, 1 / 4, 1 / 4, 1 / 4] [1, 1 / 4, 1 / 16, 1 / 64]
                [0, 3 / 4, 3 / 4, 3 / 4] (\<lambda>k (i::unit). real k) (nat (3 - 1)) (\<lambda>i. 0) 1)"
proof -
  have s: "{Suc 0..2} = {Suc 0, 2}" by auto
  show ?thesis
    using generate_refines_reverse_sampler [of 3 "[1, 1 / 4, 1 / 4, 1 / 4]"
        "[1, 1 / 4, 1 / 16, 1 / 64]" "[0, 3 / 4, 3 / 4, 3 / 4]" "\<lambda>X t. X" "\<lambda>k (i::unit). real k"]
    by (simp add: s)
qed

subsection \<open>A predictor that returns zero\<close>

lemma generate_loop_zero_predictor:
  assumes "int n < int (length alpha)" and "int n < int (length alpha_cumprod)"
    and "int n < int (length beta)"
    and "\<forall>t \<in> {1..n}. 0 < alpha ! t \<and> alpha ! t \<le> 1 \<and> alpha_cumprod ! t < 1"
    and "\<forall>X t. model X t = zeros" and "\<forall>j \<ge> 1. normal j = zeros" and "1 \<le> k"
  shows "generate_loop model alpha alpha_cumprod beta normal (int n) X k =
           Inr (scale (\<Prod>t = 1..n. 1 / sqrt (alpha ! t)) X)"
  using assms(1-4,7)
proof (induction n arbitrary: X k)
  case 0
  then show ?case by (subst generate_loop.simps) (simp add: scale_def)
next
  case (Suc n)
  have nk: "normal k = zeros"
    using assms(6) Suc.prems(5) by simp
  have step: "generate_step alpha alpha_cumprod beta (int (Suc n)) X zeros zeros =
      Inr (scale (1 / sqrt (alpha ! Suc n)) X)"
    using Suc.prems generate_step_reverse_update [of "int (Suc n)" alpha alpha_cumprod beta X zeros zeros]
    by (simp add: reverse_update_def zeros_def scale_def del: of_nat_Suc)
  have ih: "generate_loop model alpha alpha_cumprod beta normal (int n) X' k' =
      Inr (scale (\<Prod>t = 1..n. 1 / sqrt (alpha ! t)) X')" if "1 \<le> k'" for X' k'
    using Suc.prems that by (intro Suc.IH) simp_all
  have ih0: "generate_loop model alpha alpha_cumprod beta normal (int n) X' k =
      Inr (scale (\<Prod>t = 1..n. 1 / sqrt (alpha ! t)) X')" for X'
    using Suc.prems(5) by (rule ih)
  have ih1: "generate_loop model alpha alpha_cumprod beta normal (int n) X' (k + 1) =
      Inr (scale (\<Prod>t = 1..n. 1 / sqrt (alpha ! t)) X')" for X'
    by (rule ih) simp
  have ihc: "generate_loop model alpha alpha_cumprod beta normal (int n) X' (if c then k + 1 else k) =
      Inr (scale (\<Prod>t = 1..n. 1 / sqrt (alpha ! t)) X')" for X' c
    using ih0 [of X'] ih1 [of X'] by (cases c) simp_all
  have z: "(if c then normal k else zeros) = zeros" for c
    by (simp add: nk)
  have pred: "int (Suc n) - 1 = int n" by simp
  have m: "model X (int (Suc n)) = zeros" using assms(5) by simp
  have "generate_loop model alpha alpha_cumprod beta normal (int (Suc n)) X k =
      Inr (scale (\<Prod>t = 1..n. 1 / sqrt (alpha ! t)) (scale (1 / sqrt (alpha ! Suc n)) X))"
    by (subst generate_loop.simps)
       (simp add: z m step pred ihc Let_def del: of_nat_Suc One_nat_def split del: if_split)
  also have "scale (\<Prod>t = 1..n. 1 / sqrt (alpha ! t)) (scale (1 / sqrt (alpha ! Suc n)) X)
      = scale (\<Prod>t = 1..Suc n. 1 / sqrt (alpha ! t)) X"
    by (simp add: scale_def fun_eq_iff)
  finally show ?case .
qed

text \<open>
  Claim C7. With a predictor that returns the zero tensor at every step and every normal
  draw after the first forced to zero, \<^verbatim>\<open>generate\<close> returns the initial sample (the first
  draw) scaled by the product of \<open>1/sqrt(alpha[t])\<close> over \<open>t = T - 1, \<dots>, 1\<close>.
\<close>

theorem generate_zero_predictor_closed_form:
  assumes "1 \<le> T"
    and "int (length alpha) = T + 1" and "int (length alpha_cumprod) = T + 1"
    and "int (length beta) = T + 1"
    and "\<forall>t \<in> {1..nat (T - 1)}. 0 < alpha ! t \<and> alpha ! t \<le> 1 \<and> alpha_cumprod ! t < 1"
    and "\<forall>X t. model X t = zeros" and "\<forall>k \<ge> 1. normal k = zeros"
  shows "generate model T alpha alpha_cumprod beta normal =
           Inr (scale (\<Prod>t = 1..nat (T - 1). 1 / sqrt (alpha ! t)) (normal 0))"
proof -
  have "T - 1 = int (nat (T - 1))" using assms(1) by simp
  moreover have "int (nat (T - 1)) < int (length alpha)"
    "int (nat (T - 1)) < int (length alpha_cumprod)" "int (nat (T - 1)) < int (length beta)"
    using assms(1-4) by simp_all
  ultimately show ?thesis
    unfolding generate_def
    using generate_loop_zero_predictor [OF _ _ _ assms(5,6,7), where k = 1] by (metis order_refl)
qed

theorem generate_zero_predictor_closed_form_witness:
  "(1::int) \<le> 3
   \<and> int (length [1, 1 / 4, 1 / 9, 1 / 4 :: real]) = 3 + 1
   \<and> int (length [1, 1 / 4, 1 / 36, 1 / 144 :: real]) = 3 + 1
   \<and> int (length [0, 3 / 4, 8 / 9, 3 / 4 :: real]) = 3 + 1
   \<and> 0 < [1, 1 / 4, 1 / 9, 1 / 4 :: real] ! 1 \<and> [1, 1 / 4, 1 / 9, 1 / 4 :: real] ! 1 \<le> 1
   \<and> [1, 1 / 4, 1 / 36, 1 / 144 :: real] ! 1 < 1
   \<and> 0 < [1, 1 / 4, 1 / 9, 1 / 4 :: real] ! 2 \<and> [1, 1 / 4, 1 / 9, 1 / 4 :: real] ! 2 \<le> 1
   \<and> [1, 1 / 4, 1 / 36, 1 / 144 :: real] ! 2 < 1
   \<and> (\<forall>X t. (\<lambda>X t. zeros :: unit tensor) X (t::int) = zeros)
   \<and> (\<forall>k. (\<lambda>(k::nat) (i::unit). if k = 0 then 5 else 0) (Suc k) = zeros)
   \<and> generate (\<lambda>X t. zeros) 3 [1, 1 / 4, 1 / 9, 1 / 4] [1, 1 / 4, 1 / 36, 1 / 144] [0, 3 / 4, 8 / 9, 3 / 4]
        (\<lambda>k (i::unit). if k = 0 then 5 else 0)
      = Inr (\<lambda>i. 30)"
proof -
  have s: "{Suc 0..2} = {Suc 0, 2}" by auto
  have r: "sqrt 4 = 2" "sqrt 9 = 3"
    using real_sqrt_abs [of 2] real_sqrt_abs [of 3] by simp_all
  show ?thesis
    using generate_zero_predictor_closed_form [of 3 "[1, 1 / 4, 1 / 9, 1 / 4]"
        "[1, 1 / 4, 1 / 36, 1 / 144]" "[0, 3 / 4, 8 / 9, 3 / 4]" "\<lambda>X t. zeros"
        "\<lambda>k (i::unit). if k = 0 then 5 else 0"]
    by (simp add: s r zeros_def scale_def real_sqrt_divide fun_eq_iff)
qed

end
